theory Spec2Isabelle
  imports Complex_Main
begin

section \<open>The Ritz selector \<open>findEig\<close>\<close>

subsection \<open>Doubles\<close>

text \<open>
  The arithmetic of \<open>findEig\<close> is written in the source file itself, so its doubles
  are modelled with what IEEE arithmetic adds to the reals: a double is NaN, an
  infinity or a finite real. The two signed zeros compare equal and are one value here.
\<close>

datatype dbl = NaN | NegInf | Fin real | PosInf

text \<open>The comparison \<open>a < b\<close> of doubles: false as soon as one side is NaN.\<close>

fun dless :: "dbl \<Rightarrow> dbl \<Rightarrow> bool" where
  "dless (Fin x) (Fin y) = (x < y)"
| "dless (Fin x) PosInf = True"
| "dless NegInf (Fin y) = True"
| "dless NegInf PosInf = True"
| "dless _ _ = False"

text \<open>
  An operation on finite doubles returns its exact result rounded. The rounding
  (to nearest, with overflow to an infinity) belongs to the machine and is a parameter:
  \<open>rnd x\<close> is the double returned for the exact result \<open>x\<close>.
\<close>

type_synonym rounding = "real \<Rightarrow> dbl"

definition dsign :: "dbl \<Rightarrow> int" where
  "dsign a = (case a of NaN \<Rightarrow> 0 | NegInf \<Rightarrow> - 1 | PosInf \<Rightarrow> 1
              | Fin x \<Rightarrow> (if x < 0 then - 1 else if x = 0 then 0 else 1))"

text \<open>
  The product of doubles: NaN for a NaN operand and for \<open>0 \<times> \<infinity>\<close>, otherwise an infinity
  of the right sign when an operand is infinite.
\<close>

fun dmul :: "rounding \<Rightarrow> dbl \<Rightarrow> dbl \<Rightarrow> dbl" where
  "dmul rnd (Fin x) (Fin y) = rnd (x * y)"
| "dmul rnd a b =
     (if dsign a * dsign b = 0 then NaN else if 0 < dsign a * dsign b then PosInf else NegInf)"

text \<open>The sum of doubles: NaN for a NaN operand and for \<open>\<infinity> - \<infinity>\<close>.\<close>

fun dadd :: "rounding \<Rightarrow> dbl \<Rightarrow> dbl \<Rightarrow> dbl" where
  "dadd rnd (Fin x) (Fin y) = rnd (x + y)"
| "dadd rnd NaN b = NaN"
| "dadd rnd a NaN = NaN"
| "dadd rnd PosInf NegInf = NaN"
| "dadd rnd NegInf PosInf = NaN"
| "dadd rnd PosInf b = PosInf"
| "dadd rnd a PosInf = PosInf"
| "dadd rnd NegInf b = NegInf"
| "dadd rnd a NegInf = NegInf"

text \<open>The inline function \<open>sqr\<close> of the library, \<open>x * x\<close>.\<close>

definition sqr :: "rounding \<Rightarrow> dbl \<Rightarrow> dbl" where
  "sqr rnd x = dmul rnd x x"

text \<open>The largest value of the 32-bit \<open>int\<close> of the source.\<close>

definition INT_MAX :: int where
  "INT_MAX = 2147483647"

subsection \<open>The function\<close>

text \<open>
  The vectors \<open>DR\<close>, \<open>DI\<close> of the source are indexed from 1; position \<open>ii\<close> of the source
  is position \<open>ii - 1\<close> of the list.

  First loop of \<open>findEig\<close>: one step for the source index \<open>ii = i + 1\<close>. The state is
  \<open>(A2, maxj, w)\<close>; \<open>w\<close> keeps the one-based index of the source.
\<close>

definition seed_step ::
  "rounding \<Rightarrow> dbl list \<Rightarrow> dbl list \<Rightarrow> dbl list \<times> dbl \<times> int \<Rightarrow> nat \<Rightarrow> dbl list \<times> dbl \<times> int" where
  "seed_step rnd DR DI s i =
     (case s of (A2, maxj, w) \<Rightarrow>
        let A2' = A2[i := dadd rnd (sqr rnd (DR ! i)) (sqr rnd (DI ! i))]
        in if dless maxj (A2' ! i) then (A2', A2' ! i, int i + 1) else (A2', maxj, w))"

definition seed_pass :: "rounding \<Rightarrow> dbl list \<Rightarrow> dbl list \<Rightarrow> dbl list \<times> dbl \<times> int" where
  "seed_pass rnd DR DI =
     (let L = length DR
      in foldl (seed_step rnd DR DI) (replicate L (Fin 0), Fin (- 1), - 1) [0..<L])"

text \<open>
  Inner loop of the second phase: one step for the source index \<open>ii = i + 1\<close>, with the
  state \<open>(nmax, w)\<close> and the threshold \<open>maxj\<close> of the enclosing pass.
\<close>

definition displace_step :: "dbl list \<Rightarrow> dbl \<Rightarrow> dbl \<times> int \<Rightarrow> nat \<Rightarrow> dbl \<times> int" where
  "displace_step A2 maxj s i =
     (case s of (nmax, w) \<Rightarrow>
        if dless nmax (A2 ! i) \<and> dless (A2 ! i) maxj then (A2 ! i, int i + 1) else (nmax, w))"

text \<open>One pass \<open>j\<close> of the second phase: \<open>nmax = -1\<close>, the inner loop, \<open>maxj = nmax\<close>.\<close>

definition displace_pass :: "dbl list \<Rightarrow> dbl \<times> int \<Rightarrow> dbl \<times> int" where
  "displace_pass A2 s =
     (case s of (maxj, w) \<Rightarrow> foldl (displace_step A2 maxj) (Fin (- 1), w) [0..<length A2])"

text \<open>The loop \<open>for(j = 1; j <= num; ++j)\<close> runs \<open>nat num\<close> passes when it ends.\<close>

primrec displace_loop :: "nat \<Rightarrow> dbl list \<Rightarrow> dbl \<times> int \<Rightarrow> dbl \<times> int" where
  "displace_loop 0 A2 s = s"
| "displace_loop (Suc n) A2 s = displace_loop n A2 (displace_pass A2 s)"

text \<open>
  The function. The loop counters are of type \<open>int\<close>: with \<open>num = INT_MAX\<close> the test
  \<open>j <= num\<close> never fails and \<open>++j\<close> overflows, and likewise \<open>++ii\<close> with
  \<open>L = INT_MAX\<close>; the behaviour is undefined and the function returns nothing
  (\<open>None\<close>). Otherwise it returns \<open>w - 1\<close>. Vectors of unequal lengths, an error of the
  \<open>DEBUG\<close> build and a read outside \<open>DI\<close> otherwise, are left to the statements, which
  assume equal lengths.
\<close>

definition findEig :: "rounding \<Rightarrow> int \<Rightarrow> dbl list \<Rightarrow> dbl list \<Rightarrow> int option" where
  "findEig rnd num DR DI =
     (if INT_MAX \<le> int (length DR) \<or> INT_MAX \<le> num then None
      else (case seed_pass rnd DR DI of (A2, maxj, w) \<Rightarrow>
             (case displace_loop (nat num) A2 (maxj, w) of (maxj', w') \<Rightarrow> Some (w' - 1))))"

subsection \<open>Notions used to state what \<open>findEig\<close> selects\<close>

text \<open>The squared moduli that the first loop computes and stores in \<open>A2\<close>.\<close>

definition moduli2 :: "rounding \<Rightarrow> dbl list \<Rightarrow> dbl list \<Rightarrow> dbl list" where
  "moduli2 rnd DR DI = map (\<lambda>i. dadd rnd (sqr rnd (DR ! i)) (sqr rnd (DI ! i))) [0..<length DR]"

text \<open>
  The distinct values of \<open>ms\<close> strictly above \<open>x\<close> in the comparison of doubles; their
  number is the rank of \<open>x\<close> among the distinct values that are not NaN, counted from
  \<open>0\<close> for the largest.
\<close>

definition larger :: "dbl list \<Rightarrow> dbl \<Rightarrow> dbl set" where
  "larger ms x = {m \<in> set ms. dless x m}"

text \<open>
  What the statements assume of the rounding: the rounded value of a real that is not
  negative is not negative (and so not NaN).
\<close>

definition rnd_ok :: "rounding \<Rightarrow> bool" where
  "rnd_ok rnd \<longleftrightarrow> (\<forall>x\<ge>0. rnd x = PosInf \<or> (\<exists>y\<ge>0. rnd x = Fin y))"

text \<open>
  A rounding to run the function on concrete vectors: exact up to the largest finite
  double \<open>(2 - 1 / 2 ^ 52) * 2 ^ 1023\<close> and an infinity beyond. It agrees with the rounding of
  the machine on every exact result that is a double.
\<close>

definition rnd_sat :: rounding where
  "rnd_sat x =
     (if (2 - 1 / 2 ^ 52) * 2 ^ 1023 < x then PosInf
      else if x < - ((2 - 1 / 2 ^ 52) * 2 ^ 1023) then NegInf else Fin x)"

text \<open>
  Loop invariant of the second phase after \<open>p\<close> passes: the pick is the first index of
  its value, which is not NaN; either the threshold is that value, of rank \<open>p\<close>, or the
  passes have run out of smaller values, the threshold is \<open>-1\<close> and the pick stays at the
  smallest value.
\<close>

definition sel_inv :: "dbl list \<Rightarrow> nat \<Rightarrow> dbl \<times> int \<Rightarrow> bool" where
  "sel_inv A2 p s =
     (case s of (maxj, w) \<Rightarrow>
        1 \<le> w \<and> w \<le> int (length A2) \<and> A2 ! nat (w - 1) \<noteq> NaN \<and>
        (\<forall>i<nat (w - 1). A2 ! i \<noteq> A2 ! nat (w - 1)) \<and>
        ((maxj = A2 ! nat (w - 1) \<and> card (larger A2 maxj) = p) \<or>
         (maxj = Fin (- 1) \<and> card (larger A2 (A2 ! nat (w - 1))) = card (set A2 - {NaN}) - 1 \<and>
          card (set A2 - {NaN}) \<le> p)))"

section \<open>Tensors, operators, options and the dense eigensolvers\<close>

text \<open>
  Modelled from the spec: the tensor algebra (\<open>iqcombiner.h\<close> and the headers below it)
  is not part of the source file. Following the interface of the specification, a tensor
  is an element of a complex inner-product space, given by the list of its components;
  the default-constructed (null) tensor is the empty list. The norm is the Euclidean norm,
  \<open>BraKet\<close> is conjugate-linear in its first argument, and the arithmetic is
  component-wise. The doubles of this library are read as real numbers: there is no
  rounding and no NaN, and a division by zero, which gives an infinity or a NaN in the
  source, is \<open>0\<close> as everywhere in HOL. They enter \<open>findEig\<close>, whose arithmetic is in the
  source file, as finite doubles.
\<close>

type_synonym Tensor = "complex list"

definition isNull :: "Tensor \<Rightarrow> bool" where
  "isNull T = (T = [])"

definition tdim :: "Tensor \<Rightarrow> int" where
  "tdim T = int (length T)"

definition tnorm :: "Tensor \<Rightarrow> real" where
  "tnorm T = sqrt (sum_list (map (\<lambda>z. (cmod z)\<^sup>2) T))"

definition BraKet :: "Tensor \<Rightarrow> Tensor \<Rightarrow> complex" where
  "BraKet a b = sum_list (map2 (\<lambda>x y. cnj x * y) a b)"

definition tscale :: "complex \<Rightarrow> Tensor \<Rightarrow> Tensor" where
  "tscale c T = map (\<lambda>z. c * z) T"

definition tadd :: "Tensor \<Rightarrow> Tensor \<Rightarrow> Tensor" where
  "tadd a b = map2 (\<lambda>x y. x + y) a b"

definition tdiv :: "Tensor \<Rightarrow> Tensor \<Rightarrow> Tensor" where
  "tdiv a b = map2 (\<lambda>x y. x / y) a b"

definition mapElems :: "(real \<Rightarrow> real) \<Rightarrow> Tensor \<Rightarrow> Tensor" where
  "mapElems f T = map (\<lambda>z. complex_of_real (f (Re z))) T"

text \<open>
  The implicit matrix: the three methods that the solvers call on \<open>BigMatrixT\<close>.
\<close>

record BigMatrixT =
  productA :: "Tensor \<Rightarrow> Tensor"
  sizeA :: int
  diagA :: Tensor

text \<open>
  The options that the solvers read. An option that was not set is \<open>None\<close>; the
  accessors of the source take the default as their second argument.
\<close>

record OptSet =
  MaxIter :: "int option"
  MinIter :: "int option"
  ErrGoal :: "real option"
  DebugLevel :: "int option"
  Hermitian :: "bool option"

definition getOpt :: "'a option \<Rightarrow> 'a \<Rightarrow> 'a" where
  "getOpt x d = (case x of None \<Rightarrow> d | Some v \<Rightarrow> v)"

text \<open>
  Dense vectors and matrices of the matrix library, indexed from 1 as in the source.
  A matrix is the list of its rows. A read outside the bounds is undefined behaviour in
  the source and an unspecified value here.
\<close>

type_synonym Vector = "real list"

type_synonym Matrix = "real list list"

definition vec_at :: "Vector \<Rightarrow> int \<Rightarrow> real" where
  "vec_at v i = v ! nat (i - 1)"

definition mat_at :: "Matrix \<Rightarrow> int \<Rightarrow> int \<Rightarrow> real" where
  "mat_at M r c = (M ! nat (r - 1)) ! nat (c - 1)"

definition Nrows :: "Matrix \<Rightarrow> int" where
  "Nrows M = int (length M)"

definition Column :: "Matrix \<Rightarrow> int \<Rightarrow> Vector" where
  "Column M c = map (\<lambda>row. row ! nat (c - 1)) M"

definition Norm :: "Vector \<Rightarrow> real" where
  "Norm v = sqrt (sum_list (map (\<lambda>x. x * x) v))"

text \<open>
  \<open>Mref << M.SubMatrix(1,n+1,1,n+1)\<close> widens the view by one row and one column. The
  new cells hold the NAN that the backing matrix was filled with; they are all
  overwritten by the column and row assignments that follow, and are \<open>0\<close> here.
\<close>

definition grow :: "Matrix \<Rightarrow> Matrix" where
  "grow M = map (\<lambda>row. row @ [0]) M @ [replicate (length M + 1) 0]"

definition set_column :: "Matrix \<Rightarrow> int \<Rightarrow> Vector \<Rightarrow> Matrix" where
  "set_column M c v = map2 (\<lambda>row x. row[nat (c - 1) := x]) M v"

definition set_row :: "Matrix \<Rightarrow> int \<Rightarrow> Vector \<Rightarrow> Matrix" where
  "set_row M r v = M[nat (r - 1) := v]"

text \<open>
  The dense eigensolvers of the matrix library and the random fill of a tensor are not
  part of the source file; the solvers are parameters of the model. Each returns the
  values that the source receives through its reference arguments. \<open>randomize\<close> takes
  the number of earlier random fills of the run. \<open>rounding\<close> is the rounding of the
  double arithmetic that \<open>findEig\<close> performs.
\<close>

record Extern =
  EigenValues :: "Matrix \<Rightarrow> Vector \<times> Matrix"
  HermitianEigenvalues :: "Matrix \<Rightarrow> Matrix \<Rightarrow> Vector \<times> Matrix \<times> Matrix"
  GenEigenValues :: "Matrix \<Rightarrow> Vector \<times> Vector \<times> Matrix \<times> Matrix"
  ComplexEigenvalues :: "Matrix \<Rightarrow> Matrix \<Rightarrow> Vector \<times> Vector \<times> Matrix \<times> Matrix"
  GeneralizedEV :: "Matrix \<Rightarrow> Matrix \<Rightarrow> Vector \<times> Matrix"
  randomize :: "nat \<Rightarrow> Tensor \<Rightarrow> Tensor"
  rounding :: rounding

text \<open>
  The exceptions of the source, and \<open>IntOverflow\<close> for a run that reaches the overflow of
  an \<open>int\<close> counter in \<open>findEig\<close>.
\<close>

datatype error = NoInitialVectors | ZeroNorm | SizeMismatch | NotNormalized | BadLength | IntOverflow

text \<open>
  \<open>X = c(0)*T[0]; for(k = 1; k <= n; ++k) X += c(k)*T[k];\<close> and the same loop adding
  to a tensor that already holds a value, from \<open>k = 0\<close>.
\<close>

definition lincomb :: "(int \<Rightarrow> complex) \<Rightarrow> Tensor list \<Rightarrow> int \<Rightarrow> Tensor" where
  "lincomb c Ts n =
     foldl (\<lambda>acc k. tadd acc (tscale (c k) (Ts ! nat k))) (tscale (c 0) (Ts ! 0)) [1..n]"

definition lincomb_add :: "Tensor \<Rightarrow> (int \<Rightarrow> complex) \<Rightarrow> Tensor list \<Rightarrow> int \<Rightarrow> Tensor" where
  "lincomb_add X c Ts n =
     foldl (\<lambda>acc k. tadd acc (tscale (c k) (Ts ! nat k))) X [0..n]"

section \<open>\<open>complexDavidson\<close>\<close>

definition Approx0 :: real where
  "Approx0 = 1 / 10 ^ 12"

definition maxiter_opt :: "OptSet \<Rightarrow> int" where
  "maxiter_opt opts = getOpt (MaxIter opts) 2"

definition errgoal_opt :: "OptSet \<Rightarrow> real" where
  "errgoal_opt opts = getOpt (ErrGoal opts) (1 / 10 ^ 4)"

definition debug_level_opt :: "OptSet \<Rightarrow> int" where
  "debug_level_opt opts = getOpt (DebugLevel opts) (- 1)"

definition miniter_opt :: "OptSet \<Rightarrow> int" where
  "miniter_opt opts = getOpt (MinIter opts) 1"

definition hermitian_opt :: "OptSet \<Rightarrow> bool" where
  "hermitian_opt opts = getOpt (Hermitian opts) True"

text \<open>The calls to the dense eigensolvers, recorded in the order in which they are made.\<close>

datatype solver_call =
  CallEigenValues | CallGenEigenValues | CallHermitianEigenvalues | CallComplexEigenvalues

text \<open>
  The local variables of \<open>complexDavidson\<close> that live across iterations. The field
  \<open>st_x\<close> is the variable \<open>x\<close> of the source; \<open>st_phi\<close> is the caller's vector of guesses,
  which the function mutates. An entry of \<open>eigs\<close> that still holds its initial
  \<open>Complex(NAN,NAN)\<close> is \<open>None\<close>. Two fields are not variables of the source:
  \<open>st_nrand\<close> counts the random fills and \<open>st_calls\<close> records the solver calls.
\<close>

record dstate =
  st_V :: "Tensor list"
  st_AV :: "Tensor list"
  st_MrefR :: Matrix
  st_MrefI :: Matrix
  st_D :: Vector
  st_DI :: Vector
  st_UR :: Matrix
  st_UI :: Matrix
  st_phi :: "Tensor list"
  st_eigs :: "complex option list"
  st_t :: nat
  st_last_lambda :: complex
  st_complex_diag :: bool
  st_iter :: int
  st_nrand :: nat
  st_calls :: "solver_call list"

subsection \<open>Entry: the checks on the guesses\<close>

text \<open>
  The loop \<open>for(j = 0; j < nget; ++j)\<close> at the entry: a guess of norm zero aborts, any
  other guess is scaled by \<open>1/nrm\<close> in place.
\<close>

fun normalize_guesses :: "Tensor list \<Rightarrow> error + Tensor list" where
  "normalize_guesses [] = Inr []"
| "normalize_guesses (p # ps) =
     (if tnorm p = 0 then Inl ZeroNorm
      else (case normalize_guesses ps of
              Inl e \<Rightarrow> Inl e
            | Inr ps' \<Rightarrow> Inr (tscale (complex_of_real (1 / tnorm p)) p # ps')))"

text \<open>
  The three input checks in the order of the source: the empty list, the norms, and the
  dimension of \<open>phi.front()\<close> against \<open>A.size()\<close>. The result is the scaled list.
\<close>

definition check_inputs :: "BigMatrixT \<Rightarrow> Tensor list \<Rightarrow> error + Tensor list" where
  "check_inputs A phi0 =
     (if length phi0 = 0 then Inl NoInitialVectors
      else (case normalize_guesses phi0 of
              Inl e \<Rightarrow> Inl e
            | Inr phi1 \<Rightarrow> if tdim (hd phi1) \<noteq> sizeA A then Inl SizeMismatch else Inr phi1))"

subsection \<open>Steps A and B: projection and residual\<close>

definition ritz_coef :: "Matrix \<Rightarrow> Matrix \<Rightarrow> int \<Rightarrow> int \<Rightarrow> complex" where
  "ritz_coef U_R U_I w k = Complex (mat_at U_R (k + 1) (1 + w)) (mat_at U_I (k + 1) (1 + w))"

text \<open>
  The conversion of the \<open>size_t\<close> variable \<open>t\<close> to \<open>int\<close> in \<open>int w = t\<close> and in the
  call \<open>findEig(t, D, DI)\<close>: the value modulo \<open>2\<^sup>3\<^sup>2\<close>, read as a signed number.
\<close>

definition int_of_size_t :: "nat \<Rightarrow> int" where
  "int_of_size_t t =
     (let m = int t mod 4294967296 in if m < 2147483648 then m else m - 4294967296)"

text \<open>
  The call \<open>findEig(t, D, DI)\<close> of the driver. The entries of \<open>D\<close>, \<open>DI\<close> are the finite
  doubles that the solver returned. A call that runs into the overflow of a counter is
  the error \<open>IntOverflow\<close>.
\<close>

definition findEig_call :: "Extern \<Rightarrow> nat \<Rightarrow> Vector \<Rightarrow> Vector \<Rightarrow> error + int" where
  "findEig_call ext t d di =
     (case findEig (rounding ext) (int_of_size_t t) (map Fin d) (map Fin di) of
        None \<Rightarrow> Inl IntOverflow
      | Some w \<Rightarrow> Inr w)"

text \<open>
  The dense diagonalization of the branch \<open>ii != 0\<close>: the solver is chosen by
  \<open>complex_diag\<close> and \<open>hermitian\<close>, its call is recorded, and the result is the state with
  the new \<open>D\<close>, \<open>DI\<close>, \<open>UR\<close>, \<open>UI\<close>, the index \<open>w\<close> and the flag \<open>complex_evec\<close>.
  \<open>EigenValues\<close> does not assign \<open>UI\<close>.
\<close>

definition diagonalize :: "Extern \<Rightarrow> bool \<Rightarrow> dstate \<Rightarrow> error + (dstate \<times> int \<times> bool)" where
  "diagonalize ext hermitian s =
     (if st_complex_diag s then
        (if hermitian then
           (case HermitianEigenvalues ext (st_MrefR s) (st_MrefI s) of (d, ur, ui) \<Rightarrow>
              Inr (s\<lparr>st_D := d, st_UR := ur, st_UI := ui, st_DI := replicate (length d) 0,
                     st_calls := st_calls s @ [CallHermitianEigenvalues]\<rparr>, int_of_size_t (st_t s), False))
         else
           (case ComplexEigenvalues ext (st_MrefR s) (st_MrefI s) of (d, di, ur, ui) \<Rightarrow>
              (case findEig_call ext (st_t s) d di of
                 Inl e \<Rightarrow> Inl e
               | Inr w \<Rightarrow>
                   Inr (s\<lparr>st_D := d, st_DI := di, st_UR := ur, st_UI := ui,
                          st_calls := st_calls s @ [CallComplexEigenvalues]\<rparr>, w, False))))
      else
        (if hermitian then
           (case EigenValues ext (st_MrefR s) of (d, ur) \<Rightarrow>
              Inr (s\<lparr>st_D := d, st_UR := ur, st_DI := replicate (length d) 0,
                     st_calls := st_calls s @ [CallEigenValues]\<rparr>, int_of_size_t (st_t s), False))
         else
           (case GenEigenValues ext (st_MrefR s) of (d, di, ur, ui) \<Rightarrow>
              (case findEig_call ext (st_t s) d di of
                 Inl e \<Rightarrow> Inl e
               | Inr w \<Rightarrow>
                   Inr (s\<lparr>st_D := d, st_DI := di, st_UR := ur, st_UI := ui,
                          st_calls := st_calls s @ [CallGenEigenValues]\<rparr>, w,
                        Norm (Column ui (1 + w)) > Approx0)))))"

text \<open>
  The Ritz vector \<open>phi_t\<close> and the start of the residual \<open>q\<close>, as linear combinations of
  \<open>V[0..ii]\<close> and \<open>AV[0..ii]\<close> with column \<open>1+w\<close> of the eigenvector matrices.
\<close>

definition ritz_pair :: "bool \<Rightarrow> bool \<Rightarrow> int \<Rightarrow> int \<Rightarrow> dstate \<Rightarrow> Tensor \<times> Tensor" where
  "ritz_pair cdiag complex_evec w ii s =
     (if cdiag then
        (lincomb (ritz_coef (st_UR s) (st_UI s) w) (st_V s) ii,
         lincomb (ritz_coef (st_UR s) (st_UI s) w) (st_AV s) ii)
      else
        (let cr = (\<lambda>k. complex_of_real (mat_at (st_UR s) (k + 1) (1 + w)));
             ci = (\<lambda>k. \<i> * complex_of_real (mat_at (st_UI s) (k + 1) (1 + w)));
             p = lincomb cr (st_V s) ii;
             q = lincomb cr (st_AV s) ii
         in if complex_evec then (lincomb_add p ci (st_V s) ii, lincomb_add q ci (st_AV s) ii)
            else (p, q)))"

text \<open>
  Steps A and B of an iteration. For \<open>ii = 0\<close> the seed: \<open>lambda\<close> is the initial
  energy, the projected matrix is \<open>1\<times>1\<close> and \<open>q = AV[0] - lambda V[0]\<close>. Otherwise the
  diagonalization, the Ritz pair, \<open>lambda = (D(1+w), DI(1+w))\<close>, the residual and the sign
  fix. The result is the state, with the Ritz vector written to \<open>phi[t]\<close> (not for
  \<open>ii = 0\<close>), the Ritz value to \<open>eigs[t]\<close> and the residual to \<open>V[ni]\<close>, together with
  \<open>lambda\<close>.
\<close>

definition project :: "Extern \<Rightarrow> bool \<Rightarrow> real \<Rightarrow> int \<Rightarrow> dstate \<Rightarrow> error + (dstate \<times> complex)" where
  "project ext hermitian initEn ii s =
     (if ii = 0 then
        (let lambda = Complex initEn 0;
             q = tadd (tscale (complex_of_real (- Re lambda)) (st_V s ! 0)) (st_AV s ! 0)
         in Inr (s\<lparr>st_eigs := (st_eigs s)[st_t s := Some lambda],
                   st_MrefR := [[Re lambda]], st_MrefI := [[0]],
                   st_V := (st_V s)[nat (ii + 1) := q]\<rparr>, lambda))
      else
        (case diagonalize ext hermitian s of
           Inl e \<Rightarrow> Inl e
         | Inr (s1, w, complex_evec) \<Rightarrow>
           (case ritz_pair (st_complex_diag s) complex_evec w ii s1 of (phi_t, q) \<Rightarrow>
              (let lambda = Complex (vec_at (st_D s1) (1 + w)) (vec_at (st_DI s1) (1 + w));
                   q1 = (if Im lambda \<le> Approx0
                         then tadd q (tscale (complex_of_real (- Re lambda)) phi_t)
                         else tadd q (tscale (- lambda) phi_t));
                   flip = (mat_at (st_UR s1) 1 (1 + w) < 0);
                   phi_t' = (if flip then tscale (- 1) phi_t else phi_t);
                   q2 = (if flip then tscale (- 1) q1 else q1)
               in Inr (s1\<lparr>st_phi := (st_phi s1)[st_t s1 := phi_t'],
                          st_eigs := (st_eigs s1)[st_t s1 := Some lambda],
                          st_V := (st_V s1)[nat (ii + 1) := q2]\<rparr>, lambda)))))"

subsection \<open>Step C: convergence and targeting\<close>

definition converged :: "real \<Rightarrow> real \<Rightarrow> complex \<Rightarrow> complex \<Rightarrow> bool" where
  "converged errgoal qnorm lambda last_l \<longleftrightarrow>
     (qnorm < errgoal \<and> cmod (lambda - last_l) < errgoal) \<or> qnorm < max Approx0 (errgoal * (1 / 10 ^ 3))"

text \<open>
  The three ways through step C: the break test fails (\<open>Expand\<close>); it holds and the
  next eigenvector is targeted (\<open>NextTarget\<close>), after which the same iteration goes on
  with steps D to H; it holds and the loop is left by \<open>goto done\<close> (\<open>Finish\<close>).
\<close>

datatype verdict = Expand | NextTarget | Finish

text \<open>
  Lines from \<open>qnorm = q.norm()\<close> to the end of the \<open>if\<close> that holds \<open>goto done\<close>.
  \<open>nget\<close> is at least 1 here, so \<open>nget - 1\<close> does not wrap.
\<close>

definition check_convergence ::
  "real \<Rightarrow> int \<Rightarrow> int \<Rightarrow> nat \<Rightarrow> int \<Rightarrow> complex \<Rightarrow> dstate \<Rightarrow> verdict \<times> dstate" where
  "check_convergence errgoal miniter actual_maxiter nget ii lambda s =
     (let qnorm = tnorm (st_V s ! nat (ii + 1));
          conv = converged errgoal qnorm lambda (st_last_lambda s);
          s1 = s\<lparr>st_last_lambda := lambda\<rparr>
      in if qnorm < 1 / 10 ^ 20 \<or> (conv \<and> ii \<ge> miniter) \<or> ii = actual_maxiter
         then (if st_t s1 < nget - 1 \<and> ii < actual_maxiter
               then (NextTarget, s1\<lparr>st_t := st_t s1 + 1, st_last_lambda := Complex 1000 0\<rparr>)
               else (Finish, s1))
         else (Expand, s1))"

subsection \<open>Step D: the preconditioner\<close>

definition DavidsonPrecond :: "real \<Rightarrow> real \<Rightarrow> real" where
  "DavidsonPrecond theta val = (if theta = val then 0 else 1 / (theta - val))"

definition precondition :: "BigMatrixT \<Rightarrow> complex \<Rightarrow> int \<Rightarrow> dstate \<Rightarrow> dstate" where
  "precondition A lambda ni s =
     (if \<not> isNull (diagA A)
      then s\<lparr>st_V := (st_V s)[nat ni := tdiv (st_V s ! nat ni) (mapElems (DavidsonPrecond (Re lambda)) (diagA A))]\<rparr>
      else s)"

subsection \<open>Steps E and F: Gram-Schmidt with random restart\<close>

text \<open>One pass over \<open>V[0..ni-1]\<close>: all overlaps first, then the subtractions.\<close>

definition orthogonalize :: "Tensor list \<Rightarrow> int \<Rightarrow> Tensor \<Rightarrow> Tensor" where
  "orthogonalize Vs ni q =
     (let Vq = map (\<lambda>k. BraKet (Vs ! nat k) q) [0..ni - 1]
      in foldl (\<lambda>acc k.
           (let acc1 = tadd acc (tscale (complex_of_real (- Re (Vq ! nat k))) (Vs ! nat k))
            in if Im (Vq ! nat k) \<noteq> 0
               then tadd acc1 (tscale (complex_of_real (- Im (Vq ! nat k)) * \<i>) (Vs ! nat k))
               else acc1)) q [0..ni - 1])"

definition randomized :: "Extern \<Rightarrow> int \<Rightarrow> dstate \<Rightarrow> dstate" where
  "randomized ext ni s =
     s\<lparr>st_V := (st_V s)[nat ni := randomize ext (st_nrand s) (st_V s ! nat (ni - 1))],
       st_nrand := st_nrand s + 1\<rparr>"

definition normalized :: "int \<Rightarrow> real \<Rightarrow> dstate \<Rightarrow> dstate" where
  "normalized ni qn s = s\<lparr>st_V := (st_V s)[nat ni := tscale (complex_of_real (1 / qn)) (st_V s ! nat ni)]\<rparr>"

text \<open>
  The loop over \<open>pass\<close> with \<open>Npass = 1\<close>: a failed pass undoes the increment of \<open>pass\<close>,
  so the loop runs until a pass succeeds or one of the two \<open>goto done\<close> is taken. The
  argument \<open>count\<close> is the value of the variable before \<open>++count\<close>; the first component of
  the result says that \<open>goto done\<close> was taken.
\<close>

function gram_schmidt :: "Extern \<Rightarrow> int \<Rightarrow> int \<Rightarrow> nat \<Rightarrow> dstate \<Rightarrow> bool \<times> dstate" where
  "gram_schmidt ext maxsize ni count s =
     (if tnorm (orthogonalize (st_V s) ni (st_V s ! nat ni)) < 1 / 10 ^ 10
      then (if ni \<ge> maxsize then (True, randomized ext ni s)
            else if count + 1 > 3 then (True, randomized ext ni s)
            else gram_schmidt ext maxsize ni (count + 1)
                   (normalized ni (tnorm (st_V (randomized ext ni s) ! nat ni)) (randomized ext ni s)))
      else (False, normalized ni (tnorm (orthogonalize (st_V s) ni (st_V s ! nat ni)))
                     (s\<lparr>st_V := (st_V s)[nat ni := orthogonalize (st_V s) ni (st_V s ! nat ni)]\<rparr>)))"
  by pat_completeness auto
termination
  by (relation "measure (\<lambda>(ext, maxsize, ni, count, s). 4 - count)") auto

subsection \<open>Steps G and H: the new image vector and the new row and column of M\<close>

definition expand :: "BigMatrixT \<Rightarrow> bool \<Rightarrow> real \<Rightarrow> int \<Rightarrow> dstate \<Rightarrow> dstate" where
  "expand A hermitian errgoal ni s =
     (let Vs = st_V s;
          AVs = (st_AV s)[nat ni := productA A (Vs ! nat ni)];
          zs = map (\<lambda>k. BraKet (Vs ! nat k) (AVs ! nat ni)) [0..ni];
          newColR = map Re zs;
          newColI = map Im zs;
          MR1 = set_column (grow (st_MrefR s)) (ni + 1) newColR;
          MI1 = set_column (grow (st_MrefI s)) (ni + 1) newColI;
          ws = map (\<lambda>k. BraKet (Vs ! nat ni) (AVs ! nat k)) [0..ni - 1];
          newRowR = map Re ws @ [newColR ! nat ni];
          newRowI = map Im ws @ [newColI ! nat ni]
      in s\<lparr>st_AV := AVs,
           st_MrefR := (if hermitian then set_row MR1 (ni + 1) newColR else set_row MR1 (ni + 1) newRowR),
           st_MrefI := (if hermitian then set_row MI1 (ni + 1) (map uminus newColI)
                        else set_row MI1 (ni + 1) newRowI),
           st_complex_diag := (if \<not> st_complex_diag s \<and> Norm newColI > errgoal then True
                               else st_complex_diag s),
           st_iter := st_iter s + 1\<rparr>)"

subsection \<open>The outer loop\<close>

text \<open>
  One iteration \<open>ii\<close> of the outer loop. The first component of the result says that
  the iteration ended in \<open>goto done\<close>.
\<close>

definition body ::
  "Extern \<Rightarrow> BigMatrixT \<Rightarrow> OptSet \<Rightarrow> int \<Rightarrow> nat \<Rightarrow> real \<Rightarrow> int \<Rightarrow> dstate \<Rightarrow> error + (bool \<times> dstate)" where
  "body ext A opts actual_maxiter nget initEn ii s =
     (case project ext (hermitian_opt opts) initEn ii s of
        Inl e \<Rightarrow> Inl e
      | Inr (s1, lambda) \<Rightarrow>
        (case check_convergence (errgoal_opt opts) (miniter_opt opts) actual_maxiter nget ii lambda s1 of
           (v, s2) \<Rightarrow>
             if v = Finish then Inr (True, s2)
             else (case gram_schmidt ext (sizeA A) (ii + 1) 0 (precondition A lambda (ii + 1) s2) of
                     (bail, s4) \<Rightarrow>
                       if bail then Inr (True, s4)
                       else if debug_level_opt opts \<ge> 3 \<and> \<bar>tnorm (st_V s4 ! nat (ii + 1)) - 1\<bar> > 1 / 10 ^ 10
                       then Inl NotNormalized
                       else Inr (False, expand A (hermitian_opt opts) (errgoal_opt opts) (ii + 1) s4))))"

function davidson_loop ::
  "Extern \<Rightarrow> BigMatrixT \<Rightarrow> OptSet \<Rightarrow> int \<Rightarrow> nat \<Rightarrow> real \<Rightarrow> int \<Rightarrow> dstate \<Rightarrow> error + dstate" where
  "davidson_loop ext A opts actual_maxiter nget initEn ii s =
     (if ii \<le> actual_maxiter
      then (case body ext A opts actual_maxiter nget initEn ii s of
              Inl e \<Rightarrow> Inl e
            | Inr (fin, s') \<Rightarrow>
                if fin then Inr s'
                else davidson_loop ext A opts actual_maxiter nget initEn (ii + 1) s')
      else Inr s)"
  by pat_completeness auto
termination
  by (relation "measure (\<lambda>(ext, A, opts, actual_maxiter, nget, initEn, ii, s). nat (actual_maxiter + 1 - ii))") auto

subsection \<open>After the loop: the remaining eigenpairs\<close>

text \<open>The body of the loop \<open>for(j = t+1; j < nget; ++j)\<close> after the label \<open>done\<close>.\<close>

definition harvest_one :: "dstate \<Rightarrow> nat \<Rightarrow> dstate" where
  "harvest_one s j =
     (let tt = int (st_t s);
          complex_evec = (Norm (Column (st_UI s) (1 + tt)) > Approx0);
          Nr = Nrows (st_UR s);
          phi_j = lincomb (\<lambda>k. complex_of_real (mat_at (st_UR s) (1 + k) (1 + tt))) (st_V s) (Nr - 1);
          phi_j' = (if complex_evec
                    then lincomb_add phi_j (\<lambda>k. \<i> * complex_of_real (mat_at (st_UI s) (1 + k) (1 + tt)))
                           (st_V s) (Nr - 1)
                    else phi_j)
      in s\<lparr>st_eigs := (st_eigs s)[j := Some (Complex (vec_at (st_D s) (1 + int j)) (vec_at (st_DI s) (1 + int j)))],
           st_phi := (st_phi s)[j := phi_j']\<rparr>)"

definition harvest :: "nat \<Rightarrow> dstate \<Rightarrow> dstate" where
  "harvest nget s = foldl harvest_one s [st_t s + 1..<nget]"

subsection \<open>The function\<close>

text \<open>
  The state at the entry of the outer loop. \<open>V\<close>, \<open>AV\<close> have \<open>actual_maxiter + 2\<close> null
  tensors, then \<open>V[0] = phi.front()\<close> and \<open>AV[0] = A V[0]\<close>.
\<close>

definition init_state :: "BigMatrixT \<Rightarrow> int \<Rightarrow> Tensor list \<Rightarrow> dstate" where
  "init_state A actual_maxiter phi1 =
     \<lparr>st_V = (replicate (nat (actual_maxiter + 2)) [])[0 := hd phi1],
      st_AV = (replicate (nat (actual_maxiter + 2)) [])[0 := productA A (hd phi1)],
      st_MrefR = [[0]], st_MrefI = [[0]],
      st_D = [], st_DI = [], st_UR = [], st_UI = [],
      st_phi = phi1,
      st_eigs = replicate (length phi1) None,
      st_t = 0,
      st_last_lambda = Complex 1000 0,
      st_complex_diag = False,
      st_iter = 0,
      st_nrand = 0,
      st_calls = []\<rparr>"

text \<open>
  The whole run, returning the final state. A negative \<open>actual_maxiter + 2\<close> makes the
  constructor of \<open>V\<close> throw, and with \<open>actual_maxiter + 2 = 0\<close> the write to \<open>V[0]\<close> is
  out of bounds; both are the error \<open>BadLength\<close>.
\<close>

definition complexDavidson_run :: "Extern \<Rightarrow> BigMatrixT \<Rightarrow> Tensor list \<Rightarrow> OptSet \<Rightarrow> error + dstate" where
  "complexDavidson_run ext A phi0 opts =
     (case check_inputs A phi0 of
        Inl e \<Rightarrow> Inl e
      | Inr phi1 \<Rightarrow>
          (let actual_maxiter = min (maxiter_opt opts) (sizeA A - 1);
               initEn = Re (BraKet (hd phi1) (productA A (hd phi1)))
           in if actual_maxiter + 2 < 1 then Inl BadLength
              else (case davidson_loop ext A opts actual_maxiter (length phi0) initEn 0
                           (init_state A actual_maxiter phi1) of
                      Inl e \<Rightarrow> Inl e
                    | Inr s \<Rightarrow> Inr (harvest (length phi0) s))))"

text \<open>The value returned and the caller's vector of guesses after the call.\<close>

definition complexDavidson ::
  "Extern \<Rightarrow> BigMatrixT \<Rightarrow> Tensor list \<Rightarrow> OptSet \<Rightarrow> error + (complex option list \<times> Tensor list)" where
  "complexDavidson ext A phi0 opts =
     (case complexDavidson_run ext A phi0 opts of
        Inl e \<Rightarrow> Inl e
      | Inr s \<Rightarrow> Inr (st_eigs s, st_phi s))"

text \<open>
  The two real wrappers. An eigenvalue that still holds its initial NAN stays \<open>None\<close>.
\<close>

definition davidson_vec ::
  "Extern \<Rightarrow> BigMatrixT \<Rightarrow> Tensor list \<Rightarrow> OptSet \<Rightarrow> error + (real option list \<times> Tensor list)" where
  "davidson_vec ext A phi0 opts =
     (case complexDavidson ext A phi0 opts of
        Inl e \<Rightarrow> Inl e
      | Inr (ceigs, phi') \<Rightarrow> Inr (map (map_option Re) ceigs, phi'))"

definition davidson :: "Extern \<Rightarrow> BigMatrixT \<Rightarrow> Tensor \<Rightarrow> OptSet \<Rightarrow> error + (real option \<times> Tensor)" where
  "davidson ext A phi0 opts =
     (case davidson_vec ext A [phi0] opts of
        Inl e \<Rightarrow> Inl e
      | Inr (eigs, v) \<Rightarrow> Inr (hd eigs, hd v))"

section \<open>Notions used to state the properties of \<open>complexDavidson\<close>\<close>

text \<open>The fields that preconditioning and Gram-Schmidt leave alone.\<close>

definition frame :: "dstate \<Rightarrow> dstate \<Rightarrow> bool" where
  "frame s s' \<longleftrightarrow> st_t s' = st_t s \<and> st_phi s' = st_phi s \<and> st_eigs s' = st_eigs s \<and>
     st_complex_diag s' = st_complex_diag s \<and> st_calls s' = st_calls s \<and>
     st_last_lambda s' = st_last_lambda s \<and> st_D s' = st_D s \<and> st_DI s' = st_DI s \<and>
     st_UR s' = st_UR s \<and> st_UI s' = st_UI s \<and> st_AV s' = st_AV s \<and>
     st_MrefR s' = st_MrefR s \<and> st_MrefI s' = st_MrefI s \<and> st_iter s' = st_iter s"

text \<open>The two solvers of the complex code path.\<close>

definition is_complex_call :: "solver_call \<Rightarrow> bool" where
  "is_complex_call c \<longleftrightarrow> c = CallHermitianEigenvalues \<or> c = CallComplexEigenvalues"





text \<open>A guess after \<open>phi[j] *= 1.0/nrm\<close>.\<close>

definition scaled :: "Tensor \<Rightarrow> Tensor" where
  "scaled p = tscale (complex_of_real (1 / tnorm p)) p"

text \<open>
  The vector \<open>\<Sum>\<^bsub>k\<^esub> UR(1+k,1+c) V[k]\<close>, with \<open>\<i> \<Sum>\<^bsub>k\<^esub> UI(1+k,1+c) V[k]\<close> added when column
  \<open>c\<close> (zero-based) of \<open>UI\<close> is not negligible: the synthesis of the code after the loop,
  for an arbitrary column.
\<close>

definition synth_column :: "dstate \<Rightarrow> int \<Rightarrow> Tensor" where
  "synth_column s c =
     (let p = lincomb (\<lambda>k. complex_of_real (mat_at (st_UR s) (1 + k) (1 + c))) (st_V s) (Nrows (st_UR s) - 1)
      in if Norm (Column (st_UI s) (1 + c)) > Approx0
         then lincomb_add p (\<lambda>k. \<i> * complex_of_real (mat_at (st_UI s) (1 + k) (1 + c))) (st_V s)
                (Nrows (st_UR s) - 1)
         else p)"

text \<open>
  The break condition in the words of the specification, for iteration \<open>i\<close>, residual
  norm \<open>qn\<close>, Ritz value \<open>lambda\<close> and the previous value \<open>last_l\<close>.
\<close>

definition break_condition :: "OptSet \<Rightarrow> int \<Rightarrow> int \<Rightarrow> real \<Rightarrow> complex \<Rightarrow> complex \<Rightarrow> bool" where
  "break_condition opts amax i qn lambda last_l \<longleftrightarrow>
     qn < 1 / 10 ^ 20 \<or> i = amax \<or>
     (i \<ge> miniter_opt opts \<and>
       ((qn < errgoal_opt opts \<and> cmod (lambda - last_l) < errgoal_opt opts) \<or>
        qn < max (1 / 10 ^ 12) (errgoal_opt opts * (1 / 10 ^ 3))))"

section \<open>\<open>powerMethod\<close>\<close>

text \<open>\<open>v /= r\<close> for a real \<open>r\<close>.\<close>

definition tdivr :: "Tensor \<Rightarrow> real \<Rightarrow> Tensor" where
  "tdivr T r = map (\<lambda>z. z / complex_of_real r) T"

text \<open>The tensor \<open>-eigs.at(j)*vecs.at(j)*BraKet(vecs.at(j),v)\<close>.\<close>

definition pm_term :: "real list \<Rightarrow> Tensor list \<Rightarrow> nat \<Rightarrow> Tensor \<Rightarrow> Tensor" where
  "pm_term eigs vecs j v = tscale (BraKet (vecs ! j) v) (tscale (complex_of_real (- (eigs ! j))) (vecs ! j))"

text \<open>
  The loop \<open>for(j = 0; j < t; ++j) v += ...\<close> of the source: each overlap is taken with
  the current \<open>v\<close>.
\<close>

definition pm_deflate :: "real list \<Rightarrow> Tensor list \<Rightarrow> nat \<Rightarrow> Tensor \<Rightarrow> Tensor" where
  "pm_deflate eigs vecs t v = foldl (\<lambda>v' j. tadd v' (pm_term eigs vecs j v')) v [0..<t]"

text \<open>
  The deflation in the words of the specification,
  \<open>v \<leftarrow> v - \<Sum>\<^bsub>j<t\<^esub> \<lambda>\<^bsub>j\<^esub> vecs\<^bsub>j\<^esub> \<langle>vecs\<^bsub>j\<^esub>|v\<rangle>\<close>: every overlap is taken with the \<open>v\<close> on the
  right-hand side of the assignment.
\<close>

definition pm_deflate_spec :: "real list \<Rightarrow> Tensor list \<Rightarrow> nat \<Rightarrow> Tensor \<Rightarrow> Tensor" where
  "pm_deflate_spec eigs vecs t v = foldl (\<lambda>acc j. tadd acc (pm_term eigs vecs j v)) v [0..<t]"

text \<open>
  The body of the loop over \<open>ii\<close> up to the test, for a given deflation. The state is the
  pair of \<open>vecs\<close> and \<open>eigs\<close>; \<open>v\<close> is \<open>vecs[t]\<close> and \<open>lambda\<close> is \<open>eigs[t]\<close>.
\<close>

definition pm_step ::
  "(real list \<Rightarrow> Tensor list \<Rightarrow> nat \<Rightarrow> Tensor \<Rightarrow> Tensor) \<Rightarrow> BigMatrixT \<Rightarrow> nat \<Rightarrow>
   Tensor list \<times> real list \<Rightarrow> Tensor list \<times> real list" where
  "pm_step defl A t s =
     (case s of (vecs, eigs) \<Rightarrow>
        (let v = defl eigs vecs t (productA A (vecs ! t));
             lambda = tnorm v
         in (vecs[t := tdivr v lambda], eigs[t := lambda])))"

text \<open>The loop \<open>for(ii = 1; ii <= maxiter; ++ii)\<close> with \<open>maxiter = 1000\<close> and its \<open>break\<close>.\<close>

function pm_inner ::
  "(real list \<Rightarrow> Tensor list \<Rightarrow> nat \<Rightarrow> Tensor \<Rightarrow> Tensor) \<Rightarrow> BigMatrixT \<Rightarrow> real \<Rightarrow> nat \<Rightarrow> int \<Rightarrow>
   Tensor list \<times> real list \<Rightarrow> Tensor list \<times> real list" where
  "pm_inner defl A errgoal t ii s =
     (if ii \<le> 1000
      then (if \<bar>snd (pm_step defl A t s) ! t - snd s ! t\<bar> < errgoal then pm_step defl A t s
            else pm_inner defl A errgoal t (ii + 1) (pm_step defl A t s))
      else s)"
  by pat_completeness auto
termination
  by (relation "measure (\<lambda>(defl, A, errgoal, t, ii, s). nat (1001 - ii))") auto

text \<open>The start of a target: \<open>v /= v.norm()\<close>.\<close>

definition pm_start :: "nat \<Rightarrow> Tensor list \<times> real list \<Rightarrow> Tensor list \<times> real list" where
  "pm_start t s = (case s of (vecs, eigs) \<Rightarrow> (vecs[t := tdivr (vecs ! t) (tnorm (vecs ! t))], eigs))"

definition pm_target ::
  "(real list \<Rightarrow> Tensor list \<Rightarrow> nat \<Rightarrow> Tensor \<Rightarrow> Tensor) \<Rightarrow> BigMatrixT \<Rightarrow> real \<Rightarrow>
   Tensor list \<times> real list \<Rightarrow> nat \<Rightarrow> Tensor list \<times> real list" where
  "pm_target defl A errgoal s t = pm_inner defl A errgoal t 1 (pm_start t s)"

definition power_iteration ::
  "(real list \<Rightarrow> Tensor list \<Rightarrow> nat \<Rightarrow> Tensor \<Rightarrow> Tensor) \<Rightarrow> BigMatrixT \<Rightarrow> Tensor list \<Rightarrow> OptSet \<Rightarrow>
   Tensor list \<times> real list" where
  "power_iteration defl A vecs opts =
     foldl (pm_target defl A (getOpt (ErrGoal opts) (1 / 10 ^ 4)))
       (vecs, replicate (length vecs) 1000) [0..<length vecs]"

text \<open>
  The function of the source: the first component is \<open>vecs\<close> after the call, the second
  the vector of eigenvalues that is returned.
\<close>

definition powerMethod :: "BigMatrixT \<Rightarrow> Tensor list \<Rightarrow> OptSet \<Rightarrow> Tensor list \<times> real list" where
  "powerMethod A vecs opts = power_iteration pm_deflate A vecs opts"

text \<open>The same iteration with the deflation as the specification words it.\<close>

definition powerMethod_spec :: "BigMatrixT \<Rightarrow> Tensor list \<Rightarrow> OptSet \<Rightarrow> Tensor list \<times> real list" where
  "powerMethod_spec A vecs opts = power_iteration pm_deflate_spec A vecs opts"

subsection \<open>The amended claim as a function\<close>

text \<open>
  The iteration in the words of the amended claim, on values instead of the arrays of the
  source. The targets already handled are the list \<open>found\<close> of their pairs
  \<open>(\<lambda>\<^sub>j, vecs\<^sub>j)\<close>, in input order.

  The deflation: for each pair in turn, \<open>v \<leftarrow> v - \<lambda>\<^sub>j vecs\<^sub>j \<langle>vecs\<^sub>j|v\<rangle>\<close> with the current \<open>v\<close>.
\<close>

fun deflate_in_turn :: "(real \<times> Tensor) list \<Rightarrow> Tensor \<Rightarrow> Tensor" where
  "deflate_in_turn [] v = v"
| "deflate_in_turn ((l, u) # found) v =
     deflate_in_turn found (tadd v (tscale (- (complex_of_real l * BraKet u v)) u))"

text \<open>One iteration: \<open>v \<leftarrow> A v\<close>, the deflation, \<open>\<lambda> \<leftarrow> \<parallel>v\<parallel>\<close>, \<open>v \<leftarrow> v/\<lambda>\<close>.\<close>

definition power_step :: "BigMatrixT \<Rightarrow> (real \<times> Tensor) list \<Rightarrow> Tensor \<Rightarrow> real \<times> Tensor" where
  "power_step A found v =
     (let w = deflate_in_turn found (productA A v)
      in (tnorm w, tscale (complex_of_real (1 / tnorm w)) w))"

text \<open>
  At most \<open>n\<close> iterations from the pair \<open>(\<lambda>\<^sub>p\<^sub>r\<^sub>e\<^sub>v, v)\<close>, stopping after the first one
  with \<open>|\<lambda> - \<lambda>\<^sub>p\<^sub>r\<^sub>e\<^sub>v| < ErrGoal\<close>.
\<close>

fun iterate :: "nat \<Rightarrow> BigMatrixT \<Rightarrow> real \<Rightarrow> (real \<times> Tensor) list \<Rightarrow> real \<times> Tensor \<Rightarrow> real \<times> Tensor" where
  "iterate 0 A errgoal found (prev, v) = (prev, v)"
| "iterate (Suc n) A errgoal found (prev, v) =
     (case power_step A found v of (l, v') \<Rightarrow>
        if \<bar>l - prev\<bar> < errgoal then (l, v') else iterate n A errgoal found (l, v'))"

text \<open>A target: the start vector is normalized, \<open>\<lambda>\<^sub>p\<^sub>r\<^sub>e\<^sub>v\<close> is \<open>1000\<close>, at most 1000 iterations.\<close>

definition solve_target :: "BigMatrixT \<Rightarrow> real \<Rightarrow> (real \<times> Tensor) list \<Rightarrow> Tensor \<Rightarrow> real \<times> Tensor" where
  "solve_target A errgoal found v0 =
     iterate 1000 A errgoal found (1000, tscale (complex_of_real (1 / tnorm v0)) v0)"

text \<open>The targets in input order.\<close>

fun solve_all :: "BigMatrixT \<Rightarrow> real \<Rightarrow> (real \<times> Tensor) list \<Rightarrow> Tensor list \<Rightarrow> (real \<times> Tensor) list" where
  "solve_all A errgoal found [] = found"
| "solve_all A errgoal found (v # rest) =
     solve_all A errgoal (found @ [solve_target A errgoal found v]) rest"

text \<open>The vectors after the call and the values returned, one per input vector.\<close>

definition powerMethod_amended :: "BigMatrixT \<Rightarrow> Tensor list \<Rightarrow> OptSet \<Rightarrow> Tensor list \<times> real list" where
  "powerMethod_amended A vecs opts =
     (let r = solve_all A (getOpt (ErrGoal opts) (1 / 10 ^ 4)) [] vecs
      in (map snd r, map fst r))"

section \<open>\<open>nonOrthDavidson\<close>\<close>

definition tsub :: "Tensor \<Rightarrow> Tensor \<Rightarrow> Tensor" where
  "tsub a b = map2 (\<lambda>x y. x - y) a b"

text \<open>\<open>Dot(conj(a),b)\<close>, a real number in the source.\<close>

definition Dot_conj :: "Tensor \<Rightarrow> Tensor \<Rightarrow> real" where
  "Dot_conj a b = Re (BraKet a b)"

text \<open>The tensor \<open>U(k,1)*(AV[k]-lambda*BV[k])\<close>. The vectors \<open>V\<close>, \<open>AV\<close>, \<open>BV\<close> are used from index 1.\<close>

definition gen_term :: "Matrix \<Rightarrow> real \<Rightarrow> Tensor list \<Rightarrow> Tensor list \<Rightarrow> int \<Rightarrow> Tensor" where
  "gen_term U lambda AVs BVs k =
     tscale (complex_of_real (mat_at U k 1))
       (tsub (AVs ! nat k) (tscale (complex_of_real lambda) (BVs ! nat k)))"

text \<open>
  The branch \<open>ii != 1\<close>: the dense generalized problem, \<open>lambda = D(1)\<close>, and the residual.
  The first assignment \<open>q = U(1,1)*AV[1]\<close> is overwritten by the second; the loop over
  \<open>k\<close> assigns to \<open>q\<close>.
\<close>

definition gen_residual ::
  "Extern \<Rightarrow> Matrix \<Rightarrow> Matrix \<Rightarrow> Tensor list \<Rightarrow> Tensor list \<Rightarrow> int \<Rightarrow> Vector \<times> Matrix \<times> real \<times> Tensor" where
  "gen_residual ext Mref Nref AVs BVs ii =
     (case GeneralizedEV ext Mref Nref of (D, U) \<Rightarrow>
        (let lambda = vec_at D 1
         in (D, U, lambda,
             foldl (\<lambda>q k. gen_term U lambda AVs BVs k) (gen_term U lambda AVs BVs 1) [2..ii])))"

text \<open>
  The residual in the words of the specification, \<open>q = \<Sum>\<^bsub>k\<^esub> u[k] (AV[k] - \<lambda> BV[k])\<close> over
  \<open>k = 1..ii\<close>, for the same solution of the dense problem.
\<close>

definition gen_residual_spec ::
  "Extern \<Rightarrow> Matrix \<Rightarrow> Matrix \<Rightarrow> Tensor list \<Rightarrow> Tensor list \<Rightarrow> int \<Rightarrow> Vector \<times> Matrix \<times> real \<times> Tensor" where
  "gen_residual_spec ext Mref Nref AVs BVs ii =
     (case GeneralizedEV ext Mref Nref of (D, U) \<Rightarrow>
        (let lambda = vec_at D 1
         in (D, U, lambda,
             foldl (\<lambda>q k. tadd q (gen_term U lambda AVs BVs k)) (gen_term U lambda AVs BVs 1) [2..ii])))"

record nstate =
  ns_V :: "Tensor list"
  ns_AV :: "Tensor list"
  ns_BV :: "Tensor list"
  ns_Mref :: Matrix
  ns_Nref :: Matrix
  ns_D :: Vector
  ns_U :: Matrix
  ns_lambda :: real
  ns_last_lambda :: real
  ns_qnorm :: real
  ns_iter :: int

text \<open>
  The first part of an iteration: the residual \<open>q\<close>, with the seed step for \<open>ii = 1\<close>.
\<close>

definition nd_residual ::
  "Extern \<Rightarrow> BigMatrixT \<Rightarrow> BigMatrixT \<Rightarrow> Tensor \<Rightarrow> int \<Rightarrow> nstate \<Rightarrow> nstate \<times> Tensor" where
  "nd_residual ext A B phi ii s =
     (if ii = 1 then
        (let V1 = (ns_V s)[1 := phi];
             AV1 = (ns_AV s)[1 := productA A (V1 ! 1)];
             BV1 = (ns_BV s)[1 := productA B (V1 ! 1)];
             m = Dot_conj (V1 ! 1) (AV1 ! 1);
             n = Dot_conj (V1 ! 1) (BV1 ! 1);
             lambda = m / (n + 1 / 10 ^ 33)
         in (s\<lparr>ns_V := V1, ns_AV := AV1, ns_BV := BV1, ns_Mref := [[m]], ns_Nref := [[n]],
               ns_lambda := lambda\<rparr>,
             tadd (tscale (complex_of_real (- lambda)) (BV1 ! 1)) (AV1 ! 1)))
      else
        (case gen_residual ext (ns_Mref s) (ns_Nref s) (ns_AV s) (ns_BV s) ii of
           (D, U, lambda, q) \<Rightarrow> (s\<lparr>ns_D := D, ns_U := U, ns_lambda := lambda\<rparr>, q)))"

text \<open>
  The sign fix while the new column of \<open>N\<close> is computed: the state is the column so
  far, \<open>BV[ii+1]\<close> and \<open>d = V[ii+1]\<close>.
\<close>

definition sign_fix_step ::
  "Tensor list \<Rightarrow> int \<Rightarrow> Vector \<times> Tensor \<times> Tensor \<Rightarrow> int \<Rightarrow> Vector \<times> Tensor \<times> Tensor" where
  "sign_fix_step Vs ii st k =
     (case st of (newCol, BVn, d) \<Rightarrow>
        (let c = Dot_conj (if k = ii + 1 then d else Vs ! nat k) BVn
         in if c < 0 then (newCol @ [- c], tscale (- 1) BVn, tscale (- 1) d)
            else (newCol @ [c], BVn, d)))"

definition nd_expand :: "BigMatrixT \<Rightarrow> BigMatrixT \<Rightarrow> int \<Rightarrow> nstate \<Rightarrow> nstate" where
  "nd_expand A B ii s =
     (let d0 = ns_V s ! nat (ii + 1);
          AVn = productA A d0;
          (newColN, BVn, d) = foldl (sign_fix_step (ns_V s) ii) ([], productA B d0, d0) [1..ii + 1];
          Vs = (ns_V s)[nat (ii + 1) := d];
          newColM = map (\<lambda>k. Dot_conj (Vs ! nat k) AVn) [1..ii + 1]
      in s\<lparr>ns_V := Vs,
           ns_AV := (ns_AV s)[nat (ii + 1) := AVn],
           ns_BV := (ns_BV s)[nat (ii + 1) := BVn],
           ns_Nref := set_row (set_column (grow (ns_Nref s)) (ii + 1) newColN) (ii + 1) newColN,
           ns_Mref := set_row (set_column (grow (ns_Mref s)) (ii + 1) newColM) (ii + 1) newColM\<rparr>)"

text \<open>One iteration of the loop; the first component says that the \<open>break\<close> was taken.\<close>

definition nd_body ::
  "Extern \<Rightarrow> BigMatrixT \<Rightarrow> BigMatrixT \<Rightarrow> real \<Rightarrow> int \<Rightarrow> Tensor \<Rightarrow> int \<Rightarrow> nstate \<Rightarrow> bool \<times> nstate" where
  "nd_body ext A B errgoal actual_maxiter phi ii s =
     (case nd_residual ext A B phi ii (s\<lparr>ns_iter := ns_iter s + 1\<rparr>) of (s1, q) \<Rightarrow>
        (let s2 = s1\<lparr>ns_qnorm := tnorm q\<rparr>
         in if (tnorm q < errgoal \<and> \<bar>ns_lambda s2 - ns_last_lambda s2\<bar> < errgoal) \<or> tnorm q < 1 / 10 ^ 12
            then (True, s2)
            else (let s3 = s2\<lparr>ns_V := (ns_V s2)[nat (ii + 1) := tscale (complex_of_real (1 / (tnorm q + 1 / 10 ^ 33))) q],
                              ns_last_lambda := ns_lambda s2\<rparr>
                  in (False, if ii < actual_maxiter then nd_expand A B ii s3 else s3))))"

function nd_loop ::
  "Extern \<Rightarrow> BigMatrixT \<Rightarrow> BigMatrixT \<Rightarrow> real \<Rightarrow> int \<Rightarrow> Tensor \<Rightarrow> int \<Rightarrow> nstate \<Rightarrow> nstate" where
  "nd_loop ext A B errgoal actual_maxiter phi ii s =
     (if ii \<le> actual_maxiter
      then (case nd_body ext A B errgoal actual_maxiter phi ii s of
              (brk, s') \<Rightarrow> if brk then s' else nd_loop ext A B errgoal actual_maxiter phi (ii + 1) s')
      else s)"
  by pat_completeness auto
termination
  by (relation "measure (\<lambda>(ext, A, B, errgoal, actual_maxiter, phi, ii, s). nat (actual_maxiter + 1 - ii))") auto

text \<open>The variables at the entry of the loop.\<close>

definition nd_init :: "int \<Rightarrow> nstate" where
  "nd_init actual_maxiter =
     \<lparr>ns_V = replicate (nat (actual_maxiter + 2)) [],
      ns_AV = replicate (nat (actual_maxiter + 2)) [],
      ns_BV = replicate (nat (actual_maxiter + 2)) [],
      ns_Mref = [[0]], ns_Nref = [[0]], ns_D = [], ns_U = [],
      ns_lambda = 10 ^ 30, ns_last_lambda = 10 ^ 30, ns_qnorm = 10 ^ 30,
      ns_iter = 0\<rparr>"

text \<open>
  The function: the value returned and \<open>phi\<close> after the call. With
  \<open>actual_maxiter + 2 < 2\<close> the vectors have no element of index 1 (or their constructor
  throws); this is the error \<open>BadLength\<close>. The final loop
  \<open>phi = U(1,1)*V[1]; for(k = 2; k <= iter; ++k) phi += U(k,1)*V[k]\<close> is \<open>lincomb\<close> on
  the vectors from index 1.
\<close>

definition nonOrthDavidson ::
  "Extern \<Rightarrow> BigMatrixT \<Rightarrow> BigMatrixT \<Rightarrow> Tensor \<Rightarrow> OptSet \<Rightarrow> error + (real \<times> Tensor)" where
  "nonOrthDavidson ext A B phi0 opts =
     (let phi = tscale (complex_of_real (1 / sqrt (Dot_conj phi0 (productA B phi0)))) phi0;
          actual_maxiter = min (getOpt (MaxIter opts) 2) (sizeA A)
      in if actual_maxiter + 2 < 2 then Inl BadLength
         else (let s = nd_loop ext A B (getOpt (ErrGoal opts) (1 / 10 ^ 4)) actual_maxiter phi 1
                         (nd_init actual_maxiter)
               in Inr (ns_lambda s,
                       lincomb (\<lambda>k. complex_of_real (mat_at (ns_U s) (k + 1) 1)) (tl (ns_V s)) (ns_iter s - 1))))"

section \<open>Concrete operators, options and solver answers\<close>

text \<open>
  The inputs on which the model is run below. A run needs answers of the dense
  eigensolvers: \<open>ext_stub r\<close> answers with the diagonal of the matrix and the identity
  (exact for a diagonal matrix with ascending diagonal) and fills a tensor "at random"
  with \<open>r\<close>; \<open>ext_diag12\<close> and \<open>ext_swap\<close> answer with the eigendecomposition of the one
  projected matrix of their run. The states \<open>ex1_s1\<close>, \<open>ex2_s1\<close>, ... are the variables of
  the runs at the end of their iterations.
\<close>

text \<open>The operator \<open>diag(1, 2)\<close>, without a diagonal for the preconditioner.\<close>

definition A_diag12 :: BigMatrixT where
  "A_diag12 = \<lparr>productA = (\<lambda>x. map2 (\<lambda>a b. a * b) [1, 2] x), sizeA = 2, diagA = []\<rparr>"

text \<open>
  Solver answers for the run of \<open>A_diag12\<close> from the guess \<open>(3/5, 4/5)\<close>: the
  eigenvalues \<open>1, 2\<close> and eigenvectors (columns) of the projected matrix
  \<open>[[41/25, 12/25], [12/25, 34/25]]\<close>.
\<close>

definition ext_diag12 :: Extern where
  "ext_diag12 =
     \<lparr>EigenValues = (\<lambda>M. ([1, 2], [[3/5, 4/5], [- (4/5), 3/5]])),
      HermitianEigenvalues = (\<lambda>M N. ([], [], [])),
      GenEigenValues = (\<lambda>M. ([], [], [], [])),
      ComplexEigenvalues = (\<lambda>M N. ([], [], [], [])),
      GeneralizedEV = (\<lambda>M N. ([], [])),
      randomize = (\<lambda>n T. T),
      rounding = rnd_sat\<rparr>"

definition opts0 :: OptSet where
  "opts0 = \<lparr>MaxIter = None, MinIter = None, ErrGoal = None, DebugLevel = None, Hermitian = None\<rparr>"

definition diag_of :: "Matrix \<Rightarrow> Vector" where
  "diag_of M = map (\<lambda>i. M ! i ! i) [0..<length M]"

definition identity :: "nat \<Rightarrow> Matrix" where
  "identity n = map (\<lambda>i. map (\<lambda>j. if i = j then 1 else 0) [0..<n]) [0..<n]"

definition zeros :: "nat \<Rightarrow> Matrix" where
  "zeros n = replicate n (replicate n 0)"

definition ext_stub :: "Tensor \<Rightarrow> Extern" where
  "ext_stub r =
     \<lparr>EigenValues = (\<lambda>M. (diag_of M, identity (length M))),
      HermitianEigenvalues = (\<lambda>M N. (diag_of M, identity (length M), zeros (length M))),
      GenEigenValues = (\<lambda>M. (diag_of M, replicate (length M) 0, identity (length M), zeros (length M))),
      ComplexEigenvalues = (\<lambda>M N. (diag_of M, diag_of N, identity (length M), zeros (length M))),
      GeneralizedEV = (\<lambda>M N. (map2 (\<lambda>a b. a / b) (diag_of M) (diag_of N), identity (length M))),
      randomize = (\<lambda>n T. r),
      rounding = rnd_sat\<rparr>"



definition ex1_s0 :: dstate where
  "ex1_s0 = init_state A_diag12 1 [[3/5, 4/5], [1, 0]]"

definition ex1_s1 :: dstate where
  "ex1_s1 =
     \<lparr>st_V = [[3/5, 4/5], [- (4/5), 3/5], []],
      st_AV = [[3/5, 8/5], [- (4/5), 6/5], []],
      st_MrefR = [[41/25, 12/25], [12/25, 34/25]],
      st_MrefI = [[0, 0], [0, 0]], st_D = [], st_DI = [], st_UR = [], st_UI = [],
      st_phi = [[3/5, 4/5], [1, 0]],
      st_eigs = [Some (41/25), None], st_t = 0,
      st_last_lambda = 41/25, st_complex_diag = False,
      st_iter = 1, st_nrand = 0, st_calls = []\<rparr>"

definition ex1_s2 :: dstate where
  "ex1_s2 =
     \<lparr>st_V = [[3/5, 4/5], [- (4/5), 3/5], [0, 0]],
      st_AV = [[3/5, 8/5], [- (4/5), 6/5], []],
      st_MrefR = [[41/25, 12/25], [12/25, 34/25]],
      st_MrefI = [[0, 0], [0, 0]], st_D = [1, 2], st_DI = [0, 0],
      st_UR = [[3/5, 4/5], [- (4/5), 3/5]], st_UI = [],
      st_phi = [[1, 0], [1, 0]],
      st_eigs = [Some 1, None], st_t = 0,
      st_last_lambda = 1, st_complex_diag = False,
      st_iter = 1, st_nrand = 0, st_calls = [CallEigenValues]\<rparr>"

definition ex1_final :: dstate where
  "ex1_final = ex1_s2\<lparr>st_eigs := [Some 1, Some 2], st_phi := [[1, 0], [1, 0]]\<rparr>"





definition ex3_s0 :: dstate where
  "ex3_s0 = init_state A_diag12 1 [[1, 0], [1, 0, 0]]"

definition ex3_s1 :: dstate where
  "ex3_s1 =
     \<lparr>st_V = [[1, 0], [0, 1], []],
      st_AV = [[1, 0], [0, 2], []],
      st_MrefR = [[1, 0], [0, 2]], st_MrefI = [[0, 0], [0, 0]],
      st_D = [], st_DI = [], st_UR = [], st_UI = [],
      st_phi = [[1, 0], [1, 0, 0]], st_eigs = [Some 1, None], st_t = 1,
      st_last_lambda = 1000, st_complex_diag = False,
      st_iter = 1, st_nrand = 1, st_calls = []\<rparr>"

definition ex3_s2 :: dstate where
  "ex3_s2 =
     \<lparr>st_V = [[1, 0], [0, 1], [0, 0]],
      st_AV = [[1, 0], [0, 2], []],
      st_MrefR = [[1, 0], [0, 2]], st_MrefI = [[0, 0], [0, 0]],
      st_D = [1, 2], st_DI = [0, 0], st_UR = [[1, 0], [0, 1]], st_UI = [],
      st_phi = [[1, 0], [0, 1]], st_eigs = [Some 1, Some 2], st_t = 1,
      st_last_lambda = 2, st_complex_diag = False,
      st_iter = 1, st_nrand = 1, st_calls = [CallEigenValues]\<rparr>"

definition ex3_p0 :: dstate where
  "ex3_p0 = ex3_s0\<lparr>st_eigs := [Some 1, None], st_MrefR := [[1]], st_MrefI := [[0]],
                   st_V := [[1, 0], [0, 0], []]\<rparr>"

definition ex3_c0 :: dstate where
  "ex3_c0 = ex3_p0\<lparr>st_t := 1, st_last_lambda := 1000\<rparr>"

definition ex3_g0 :: dstate where
  "ex3_g0 = ex3_c0\<lparr>st_V := [[1, 0], [0, 1], []], st_nrand := 1\<rparr>"




definition opts_maxiter0 :: OptSet where
  "opts_maxiter0 = \<lparr>MaxIter = Some 0, MinIter = None, ErrGoal = None, DebugLevel = None, Hermitian = None\<rparr>"

text \<open>The operator \<open>2\<close> on a space of dimension one.\<close>

definition A_two :: BigMatrixT where
  "A_two = \<lparr>productA = map (\<lambda>z. 2 * z), sizeA = 1, diagA = []\<rparr>"

text \<open>The operator that swaps the two components, and the identity as \<open>B\<close>.\<close>

definition A_swap :: BigMatrixT where
  "A_swap = \<lparr>productA = (\<lambda>x. [x ! 1, x ! 0]), sizeA = 2, diagA = []\<rparr>"

definition B_id :: BigMatrixT where
  "B_id = \<lparr>productA = (\<lambda>x. x), sizeA = 2, diagA = []\<rparr>"

text \<open>The factor \<open>1/(1 + 1E-33)\<close> by which the generalized driver scales a unit residual.\<close>

definition cc :: real where
  "cc = 1 / (1 + 1 / 10 ^ 33)"

text \<open>
  Solver answer for the run of \<open>A_swap\<close>, \<open>B_id\<close> from \<open>(1, 0)\<close>: the generalized
  eigenvalues \<open>-1, 1\<close> of the projected pair and eigenvectors \<open>(cc, -1)\<close>, \<open>(cc, 1)\<close>.
\<close>

definition ext_swap :: Extern where
  "ext_swap =
     \<lparr>EigenValues = (\<lambda>M. ([], [])),
      HermitianEigenvalues = (\<lambda>M N. ([], [], [])),
      GenEigenValues = (\<lambda>M. ([], [], [], [])),
      ComplexEigenvalues = (\<lambda>M N. ([], [], [], [])),
      GeneralizedEV = (\<lambda>M N. ([- 1, 1], [[cc, cc], [- 1, 1]])),
      randomize = (\<lambda>n T. T),
      rounding = rnd_sat\<rparr>"

definition ex4_s1 :: nstate where
  "ex4_s1 =
     \<lparr>ns_V = [[], [1, 0], [0, complex_of_real cc], []],
      ns_AV = [[], [0, 1], [complex_of_real cc, 0], []],
      ns_BV = [[], [1, 0], [0, complex_of_real cc], []],
      ns_Mref = [[0, cc], [cc, 0]], ns_Nref = [[1, 0], [0, cc * cc]], ns_D = [], ns_U = [],
      ns_lambda = 0, ns_last_lambda = 0, ns_qnorm = 1, ns_iter = 1\<rparr>"

section \<open>What \<open>findEig\<close> returns\<close>

subsection \<open>The comparison of doubles\<close>

lemma dless_irrefl: "\<not> dless a a"
  by (cases a) simp_all

lemma dless_trans: "dless a b \<Longrightarrow> dless b c \<Longrightarrow> dless a c"
  by (cases a; cases b; cases c) simp_all

lemma dless_linear: "a \<noteq> NaN \<Longrightarrow> b \<noteq> NaN \<Longrightarrow> dless a b \<or> a = b \<or> dless b a"
  by (cases a; cases b) auto

lemma dless_NaN: "dless a b \<Longrightarrow> a \<noteq> NaN \<and> b \<noteq> NaN"
  by (cases a; cases b) simp_all

lemma dless_asym: "dless a b \<Longrightarrow> \<not> dless b a"
  using dless_trans dless_irrefl by blast

lemma rnd_sat_ok: "rnd_ok rnd_sat"
  by (auto simp: rnd_ok_def rnd_sat_def)

subsection \<open>The squared moduli\<close>

lemma sqr_cases:
  assumes "rnd_ok rnd"
  shows "(x = NaN \<longrightarrow> sqr rnd x = NaN) \<and>
         (x \<noteq> NaN \<longrightarrow> sqr rnd x = PosInf \<or> (\<exists>v\<ge>0. sqr rnd x = Fin v))"
proof (cases x)
  case (Fin v)
  have "0 \<le> v * v" by simp
  then have "rnd (v * v) = PosInf \<or> (\<exists>y\<ge>0. rnd (v * v) = Fin y)"
    using assms unfolding rnd_ok_def by blast
  then show ?thesis using Fin by (simp add: sqr_def)
qed (simp_all add: sqr_def dsign_def)

lemma dadd_cases:
  assumes "rnd_ok rnd"
    and "a = PosInf \<or> (\<exists>v\<ge>0. a = Fin v)" and "b = PosInf \<or> (\<exists>v\<ge>0. b = Fin v)"
  shows "dadd rnd a b = PosInf \<or> (\<exists>v\<ge>0. dadd rnd a b = Fin v)"
proof (cases a)
  case fa: (Fin x)
  show ?thesis
  proof (cases b)
    case fb: (Fin y)
    have "0 \<le> x + y" using assms(2,3) fa fb by simp
    then have "rnd (x + y) = PosInf \<or> (\<exists>v\<ge>0. rnd (x + y) = Fin v)"
      using assms(1) unfolding rnd_ok_def by blast
    then show ?thesis using fa fb by simp
  qed (use assms(3) fa in simp_all)
next
  case PosInf
  then show ?thesis using assms(3) by (cases b) simp_all
qed (use assms(2) in simp_all)

lemma dadd_NaN: "a = NaN \<or> b = NaN \<Longrightarrow> dadd rnd a b = NaN"
  by (cases a; cases b) simp_all

lemma modulus2_cases:
  assumes "rnd_ok rnd"
  shows "(x = NaN \<or> y = NaN \<longrightarrow> dadd rnd (sqr rnd x) (sqr rnd y) = NaN) \<and>
         (x \<noteq> NaN \<and> y \<noteq> NaN \<longrightarrow>
            dadd rnd (sqr rnd x) (sqr rnd y) = PosInf \<or>
            (\<exists>v\<ge>0. dadd rnd (sqr rnd x) (sqr rnd y) = Fin v))"
  using sqr_cases[OF assms, of x] sqr_cases[OF assms, of y]
    dadd_cases[OF assms, of "sqr rnd x" "sqr rnd y"] dadd_NaN[of "sqr rnd x" "sqr rnd y" rnd]
  by blast

lemma length_moduli2: "length (moduli2 rnd DR DI) = length DR"
  by (simp add: moduli2_def)

lemma moduli2_nth:
  "i < length DR \<Longrightarrow> moduli2 rnd DR DI ! i = dadd rnd (sqr rnd (DR ! i)) (sqr rnd (DI ! i))"
  by (simp add: moduli2_def)

lemma moduli2_NaN_iff:
  assumes "rnd_ok rnd" and "i < length DR"
  shows "moduli2 rnd DR DI ! i = NaN \<longleftrightarrow> DR ! i = NaN \<or> DI ! i = NaN"
  using modulus2_cases[OF assms(1), of "DR ! i" "DI ! i"] moduli2_nth[OF assms(2), of rnd DI]
  by auto

lemma moduli2_above:
  assumes "rnd_ok rnd" and "i < length DR" and "moduli2 rnd DR DI ! i \<noteq> NaN"
  shows "dless (Fin (- 1)) (moduli2 rnd DR DI ! i)"
proof -
  have "DR ! i \<noteq> NaN \<and> DI ! i \<noteq> NaN"
    using moduli2_NaN_iff[OF assms(1,2), of DI] assms(3) by blast
  then have "moduli2 rnd DR DI ! i = PosInf \<or> (\<exists>v\<ge>0. moduli2 rnd DR DI ! i = Fin v)"
    using modulus2_cases[OF assms(1), of "DR ! i" "DI ! i"] moduli2_nth[OF assms(2), of rnd DI]
    by simp
  then show ?thesis by auto
qed

subsection \<open>The first loop\<close>

lemma seed_inv:
  "n \<le> length DR \<Longrightarrow> rnd_ok rnd \<Longrightarrow>
   foldl (seed_step rnd DR DI) (replicate (length DR) (Fin 0), Fin (- 1), - 1) [0..<n] = (A2, maxj, w) \<Longrightarrow>
   length A2 = length DR \<and> (\<forall>i<n. A2 ! i = moduli2 rnd DR DI ! i) \<and>
   (((\<forall>i<n. moduli2 rnd DR DI ! i = NaN) \<and> maxj = Fin (- 1) \<and> w = - 1) \<or>
    (1 \<le> w \<and> w \<le> int n \<and> maxj = moduli2 rnd DR DI ! nat (w - 1) \<and> maxj \<noteq> NaN \<and>
      (\<forall>i<n. \<not> dless maxj (moduli2 rnd DR DI ! i)) \<and>
      (\<forall>i<nat (w - 1). moduli2 rnd DR DI ! i \<noteq> maxj)))"
proof (induction n arbitrary: A2 maxj w)
  case 0
  then show ?case by auto
next
  case (Suc n)
  let ?ms = "moduli2 rnd DR DI"
  obtain A2' maxj' w' where
    st: "foldl (seed_step rnd DR DI) (replicate (length DR) (Fin 0), Fin (- 1), - 1) [0..<n] = (A2', maxj', w')"
    by (metis prod_cases3)
  have nle: "n \<le> length DR" and nlt: "n < length DR" using Suc.prems by auto
  note IH = Suc.IH[OF nle Suc.prems(2) st]
  have m2: "?ms ! n = dadd rnd (sqr rnd (DR ! n)) (sqr rnd (DI ! n))"
    using nlt by (rule moduli2_nth)
  have above: "?ms ! n \<noteq> NaN \<Longrightarrow> dless (Fin (- 1)) (?ms ! n)"
    using moduli2_above[OF Suc.prems(2) nlt] .
  have step: "seed_step rnd DR DI (A2', maxj', w') n = (A2, maxj, w)"
    using Suc.prems(3) st by simp
  have len: "length A2' = length DR" using IH by simp
  have A2: "A2 = A2'[n := ?ms ! n]"
    using step by (auto simp: seed_step_def Let_def m2 split: if_splits)
  have pre: "length A2 = length DR \<and> (\<forall>i<Suc n. A2 ! i = ?ms ! i)"
    using IH A2 nlt by (auto simp: nth_list_update less_Suc_eq)
  show ?case
  proof (cases "dless maxj' (?ms ! n)")
    case True
    then have eq: "maxj = ?ms ! n" "w = int n + 1"
      using step len nlt by (auto simp: seed_step_def Let_def m2)
    have nn: "?ms ! n \<noteq> NaN" using True dless_NaN by blast
    have a: "\<forall>i<Suc n. \<not> dless (?ms ! n) (?ms ! i)"
    proof (intro allI impI)
      fix i assume i: "i < Suc n"
      show "\<not> dless (?ms ! n) (?ms ! i)"
      proof (cases "i = n")
        case True
        then show ?thesis by (simp add: dless_irrefl)
      next
        case False
        then have iln: "i < n" using i by simp
        from IH have "?ms ! i = NaN \<or> \<not> dless maxj' (?ms ! i)" using iln by auto
        then show ?thesis using True dless_trans dless_NaN by blast
      qed
    qed
    have b: "\<forall>i<n. ?ms ! i \<noteq> ?ms ! n"
    proof (intro allI impI)
      fix i assume iln: "i < n"
      from IH have "?ms ! i = NaN \<or> \<not> dless maxj' (?ms ! i)" using iln by auto
      then show "?ms ! i \<noteq> ?ms ! n" using True nn by auto
    qed
    show ?thesis using pre eq nn a b by simp
  next
    case False
    then have eq: "maxj = maxj'" "w = w'"
      using step len nlt by (auto simp: seed_step_def Let_def m2)
    from IH have "((\<forall>i<n. ?ms ! i = NaN) \<and> maxj' = Fin (- 1) \<and> w' = - 1) \<or>
      (1 \<le> w' \<and> w' \<le> int n \<and> maxj' = ?ms ! nat (w' - 1) \<and> maxj' \<noteq> NaN \<and>
        (\<forall>i<n. \<not> dless maxj' (?ms ! i)) \<and> (\<forall>i<nat (w' - 1). ?ms ! i \<noteq> maxj'))" by blast
    then show ?thesis
    proof
      assume d: "(\<forall>i<n. ?ms ! i = NaN) \<and> maxj' = Fin (- 1) \<and> w' = - 1"
      then have "?ms ! n = NaN" using False above by auto
      then show ?thesis using pre eq d by (auto simp: less_Suc_eq)
    next
      assume l: "1 \<le> w' \<and> w' \<le> int n \<and> maxj' = ?ms ! nat (w' - 1) \<and> maxj' \<noteq> NaN \<and>
        (\<forall>i<n. \<not> dless maxj' (?ms ! i)) \<and> (\<forall>i<nat (w' - 1). ?ms ! i \<noteq> maxj')"
      then show ?thesis using pre eq False by (auto simp: less_Suc_eq)
    qed
  qed
qed

lemma seed_pass_char:
  assumes "seed_pass rnd DR DI = (A2, maxj, w)" and "rnd_ok rnd"
    and "\<exists>i<length DR. moduli2 rnd DR DI ! i \<noteq> NaN"
  shows "A2 = moduli2 rnd DR DI \<and> 1 \<le> w \<and> w \<le> int (length DR) \<and> maxj = A2 ! nat (w - 1) \<and>
         maxj \<noteq> NaN \<and> (\<forall>i<length DR. \<not> dless maxj (A2 ! i)) \<and> (\<forall>i<nat (w - 1). A2 ! i \<noteq> maxj)"
proof -
  have f: "foldl (seed_step rnd DR DI) (replicate (length DR) (Fin 0), Fin (- 1), - 1) [0..<length DR]
           = (A2, maxj, w)"
    using assms(1) by (simp add: seed_pass_def Let_def)
  note I = seed_inv[OF le_refl assms(2) f]
  have A2: "A2 = moduli2 rnd DR DI"
    by (rule nth_equalityI) (use I in \<open>auto simp: moduli2_def\<close>)
  have w: "1 \<le> w \<and> w \<le> int (length DR)" using I assms(3) by auto
  then have "nat (w - 1) < length DR" by auto
  then show ?thesis using I assms(3) A2 w by auto
qed

lemma seed_pass_NaN:
  assumes "seed_pass rnd DR DI = (A2, maxj, w)" and "rnd_ok rnd"
    and "\<forall>i<length DR. moduli2 rnd DR DI ! i = NaN"
  shows "w = - 1"
proof -
  have f: "foldl (seed_step rnd DR DI) (replicate (length DR) (Fin 0), Fin (- 1), - 1) [0..<length DR]
           = (A2, maxj, w)"
    using assms(1) by (simp add: seed_pass_def Let_def)
  note I = seed_inv[OF le_refl assms(2) f]
  show ?thesis
  proof (cases "length DR")
    case 0
    then show ?thesis using f by simp
  next
    case (Suc k)
    then have "moduli2 rnd DR DI ! nat (w - 1) = NaN" if "1 \<le> w \<and> w \<le> int (length DR)"
      using assms(3) that by auto
    then show ?thesis using I by auto
  qed
qed

subsection \<open>The second phase\<close>

lemma displace_range:
  "n \<le> length A2 \<Longrightarrow> foldl (displace_step A2 maxj) (nmax0, w) [0..<n] = (nmax, w') \<Longrightarrow>
   w' = w \<or> (1 \<le> w' \<and> w' \<le> int n)"
proof (induction n arbitrary: nmax w')
  case 0
  then show ?case by simp
next
  case (Suc n)
  obtain nmax1 w1 where st: "foldl (displace_step A2 maxj) (nmax0, w) [0..<n] = (nmax1, w1)"
    by (metis surj_pair)
  have "w1 = w \<or> (1 \<le> w1 \<and> w1 \<le> int n)" using Suc.IH[OF _ st] Suc.prems(1) by simp
  moreover have "displace_step A2 maxj (nmax1, w1) n = (nmax, w')"
    using Suc.prems(2) st by simp
  ultimately show ?case by (auto simp: displace_step_def split: if_splits)
qed

lemma displace_pass_range:
  assumes "displace_pass A2 (maxj, w) = (maxj', w')"
  shows "w' = w \<or> (1 \<le> w' \<and> w' \<le> int (length A2))"
proof -
  have f: "foldl (displace_step A2 maxj) (Fin (- 1), w) [0..<length A2] = (maxj', w')"
    using assms by (simp add: displace_pass_def)
  from displace_range[OF le_refl f] show ?thesis .
qed

lemma displace_loop_range:
  "displace_loop n A2 (maxj, w) = (maxj', w') \<Longrightarrow> w' = w \<or> (1 \<le> w' \<and> w' \<le> int (length A2))"
proof (induction n arbitrary: maxj w)
  case 0
  then show ?case by simp
next
  case (Suc n)
  obtain m1 w1 where p: "displace_pass A2 (maxj, w) = (m1, w1)" by (metis surj_pair)
  have "w1 = w \<or> (1 \<le> w1 \<and> w1 \<le> int (length A2))" using displace_pass_range[OF p] .
  moreover have "w' = w1 \<or> (1 \<le> w' \<and> w' \<le> int (length A2))"
    using Suc.IH[of m1 w1] Suc.prems p by simp
  ultimately show ?case by auto
qed

lemma findEig_bounds:
  assumes "rnd_ok rnd" and "int (length DR) < INT_MAX" and "num < INT_MAX"
    and "\<exists>i<length DR. DR ! i \<noteq> NaN \<and> DI ! i \<noteq> NaN"
  shows "\<exists>r. findEig rnd num DR DI = Some r \<and> 0 \<le> r \<and> r \<le> int (length DR) - 1"
proof -
  obtain A2 maxj w where sp: "seed_pass rnd DR DI = (A2, maxj, w)" by (metis prod_cases3)
  obtain maxj' w' where dl: "displace_loop (nat num) A2 (maxj, w) = (maxj', w')" by (metis surj_pair)
  have ex: "\<exists>i<length DR. moduli2 rnd DR DI ! i \<noteq> NaN"
    using assms(4) moduli2_NaN_iff[OF assms(1), of _ DR DI] by blast
  note C = seed_pass_char[OF sp assms(1) ex]
  have len: "length A2 = length DR" using C length_moduli2[of rnd DR DI] by simp
  have "1 \<le> w' \<and> w' \<le> int (length DR)"
    using displace_loop_range[OF dl] C len by auto
  moreover have "findEig rnd num DR DI = Some (w' - 1)"
    using sp dl assms(2,3) by (simp add: findEig_def)
  ultimately show ?thesis by simp
qed

lemma displace_inv:
  "n \<le> length A2 \<Longrightarrow> \<forall>i<length A2. A2 ! i \<noteq> NaN \<longrightarrow> dless (Fin (- 1)) (A2 ! i) \<Longrightarrow>
   foldl (displace_step A2 maxj) (Fin (- 1), w) [0..<n] = (nmax, w') \<Longrightarrow>
   ((\<forall>i<n. \<not> dless (A2 ! i) maxj) \<and> nmax = Fin (- 1) \<and> w' = w) \<or>
   (1 \<le> w' \<and> w' \<le> int n \<and> nmax = A2 ! nat (w' - 1) \<and> dless nmax maxj \<and>
      (\<forall>i<n. dless (A2 ! i) maxj \<longrightarrow> \<not> dless nmax (A2 ! i)) \<and> (\<forall>i<nat (w' - 1). A2 ! i \<noteq> nmax))"
proof (induction n arbitrary: nmax w')
  case 0
  then show ?case by auto
next
  case (Suc n)
  obtain nmax0 w0 where st: "foldl (displace_step A2 maxj) (Fin (- 1), w) [0..<n] = (nmax0, w0)"
    by (metis surj_pair)
  have nle: "n \<le> length A2" and nlt: "n < length A2" using Suc.prems by auto
  note IH = Suc.IH[OF nle Suc.prems(2) st]
  have above: "A2 ! n \<noteq> NaN \<Longrightarrow> dless (Fin (- 1)) (A2 ! n)" using Suc.prems(2) nlt by simp
  have step: "displace_step A2 maxj (nmax0, w0) n = (nmax, w')"
    using Suc.prems(3) st by simp
  show ?case
  proof (cases "dless nmax0 (A2 ! n) \<and> dless (A2 ! n) maxj")
    case True
    then have eq: "nmax = A2 ! n" "w' = int n + 1"
      using step by (auto simp: displace_step_def)
    have a: "\<forall>i<Suc n. dless (A2 ! i) maxj \<longrightarrow> \<not> dless (A2 ! n) (A2 ! i)"
    proof (intro allI impI)
      fix i assume i: "i < Suc n" and lt: "dless (A2 ! i) maxj"
      show "\<not> dless (A2 ! n) (A2 ! i)"
      proof (cases "i = n")
        case True
        then show ?thesis by (simp add: dless_irrefl)
      next
        case False
        then have iln: "i < n" using i by simp
        from IH have "\<not> dless nmax0 (A2 ! i)" using iln lt by auto
        then show ?thesis using True dless_trans by blast
      qed
    qed
    have b: "\<forall>i<n. A2 ! i \<noteq> A2 ! n"
    proof (intro allI impI)
      fix i assume iln: "i < n"
      show "A2 ! i \<noteq> A2 ! n"
      proof
        assume e: "A2 ! i = A2 ! n"
        then have "dless (A2 ! i) maxj" "dless nmax0 (A2 ! i)" using True by simp_all
        then show False using IH iln by auto
      qed
    qed
    show ?thesis using True eq a b by simp
  next
    case False
    then have eq: "nmax = nmax0" "w' = w0"
      using step by (auto simp: displace_step_def)
    from IH show ?thesis
    proof
      assume a: "(\<forall>i<n. \<not> dless (A2 ! i) maxj) \<and> nmax0 = Fin (- 1) \<and> w0 = w"
      have "\<not> dless (A2 ! n) maxj"
      proof
        assume lt: "dless (A2 ! n) maxj"
        then have "A2 ! n \<noteq> NaN" using dless_NaN by blast
        then have "dless nmax0 (A2 ! n)" using above a by simp
        then show False using False lt by simp
      qed
      then show ?thesis using a eq by (auto simp: less_Suc_eq)
    next
      assume "1 \<le> w0 \<and> w0 \<le> int n \<and> nmax0 = A2 ! nat (w0 - 1) \<and> dless nmax0 maxj \<and>
        (\<forall>i<n. dless (A2 ! i) maxj \<longrightarrow> \<not> dless nmax0 (A2 ! i)) \<and> (\<forall>i<nat (w0 - 1). A2 ! i \<noteq> nmax0)"
      then show ?thesis using False eq by (auto simp: less_Suc_eq)
    qed
  qed
qed

lemma card_larger_split:
  assumes "x \<in> set A2" and "x \<noteq> NaN"
  shows "card (larger A2 x) + 1 + card {m \<in> set A2. dless m x} = card (set A2 - {NaN})"
proof -
  have d: "set A2 - {NaN} = larger A2 x \<union> ({x} \<union> {m \<in> set A2. dless m x})"
    using assms dless_linear[of x] dless_NaN by (auto simp: larger_def)
  have "card (set A2 - {NaN}) = card (larger A2 x) + card ({x} \<union> {m \<in> set A2. dless m x})"
    by (subst d, rule card_Un_disjoint) (auto simp: larger_def dless_irrefl dest: dless_asym)
  also have "card ({x} \<union> {m \<in> set A2. dless m x}) = 1 + card {m \<in> set A2. dless m x}"
    by (subst card_Un_disjoint) (auto simp: dless_irrefl)
  finally show ?thesis by simp
qed

lemma larger_step:
  assumes "x \<in> set A2" and "dless y x" and "\<forall>m\<in>set A2. dless m x \<longrightarrow> \<not> dless y m"
  shows "card (larger A2 y) = card (larger A2 x) + 1"
proof -
  have "larger A2 y = insert x (larger A2 x)"
  proof (rule set_eqI)
    fix m
    show "m \<in> larger A2 y \<longleftrightarrow> m \<in> insert x (larger A2 x)"
    proof
      assume m: "m \<in> larger A2 y"
      then have "m \<in> set A2" "dless y m" by (simp_all add: larger_def)
      then have "\<not> dless m x" "m \<noteq> NaN" using assms(3) dless_NaN by blast+
      moreover have "x \<noteq> NaN" using assms(2) dless_NaN by blast
      ultimately have "m = x \<or> dless x m" using dless_linear by blast
      then show "m \<in> insert x (larger A2 x)" using \<open>m \<in> set A2\<close> by (auto simp: larger_def)
    next
      assume "m \<in> insert x (larger A2 x)"
      then show "m \<in> larger A2 y" using assms(1,2) dless_trans by (auto simp: larger_def)
    qed
  qed
  moreover have "x \<notin> larger A2 x" by (simp add: larger_def dless_irrefl)
  moreover have "finite (larger A2 x)" by (simp add: larger_def)
  ultimately show ?thesis by simp
qed

lemma displace_pass_inv:
  assumes nn: "\<forall>i<length A2. A2 ! i \<noteq> NaN \<longrightarrow> dless (Fin (- 1)) (A2 ! i)" and I: "sel_inv A2 p s"
  shows "sel_inv A2 (Suc p) (displace_pass A2 s)"
proof -
  obtain maxj w where s: "s = (maxj, w)" by (metis surj_pair)
  obtain nmax w' where f: "foldl (displace_step A2 maxj) (Fin (- 1), w) [0..<length A2] = (nmax, w')"
    by (metis surj_pair)
  have dp: "displace_pass A2 s = (nmax, w')" using s f by (simp add: displace_pass_def)
  have rng: "1 \<le> w" "w \<le> int (length A2)" and nan: "A2 ! nat (w - 1) \<noteq> NaN"
    and fst: "\<forall>i<nat (w - 1). A2 ! i \<noteq> A2 ! nat (w - 1)"
    using I s by (auto simp: sel_inv_def)
  have wlt: "nat (w - 1) < length A2" using rng by auto
  then have xin: "A2 ! nat (w - 1) \<in> set A2" by simp
  note D = displace_inv[OF le_refl nn f]
  from I s consider
    (live) "maxj = A2 ! nat (w - 1)" "card (larger A2 maxj) = p"
    | (dead) "maxj = Fin (- 1)" "card (larger A2 (A2 ! nat (w - 1))) = card (set A2 - {NaN}) - 1"
        "card (set A2 - {NaN}) \<le> p"
    by (auto simp: sel_inv_def)
  then show ?thesis
  proof cases
    case live
    from D show ?thesis
    proof
      assume a: "(\<forall>i<length A2. \<not> dless (A2 ! i) maxj) \<and> nmax = Fin (- 1) \<and> w' = w"
      then have "{m \<in> set A2. dless m maxj} = {}" by (auto simp: in_set_conv_nth)
      then have "card {m \<in> set A2. dless m maxj} = 0" by simp
      moreover have "maxj \<in> set A2" "maxj \<noteq> NaN" using xin nan live(1) by simp_all
      ultimately have "card (larger A2 maxj) + 1 = card (set A2 - {NaN})"
        using card_larger_split[of maxj A2] by linarith
      then show ?thesis using a live rng nan fst dp by (auto simp: sel_inv_def)
    next
      assume b: "1 \<le> w' \<and> w' \<le> int (length A2) \<and> nmax = A2 ! nat (w' - 1) \<and> dless nmax maxj \<and>
        (\<forall>i<length A2. dless (A2 ! i) maxj \<longrightarrow> \<not> dless nmax (A2 ! i)) \<and>
        (\<forall>i<nat (w' - 1). A2 ! i \<noteq> nmax)"
      then have all: "\<forall>m\<in>set A2. dless m maxj \<longrightarrow> \<not> dless nmax m" by (auto simp: in_set_conv_nth)
      have lt: "dless nmax maxj" using b by blast
      have min: "maxj \<in> set A2" using xin live(1) by simp
      have "card (larger A2 nmax) = card (larger A2 maxj) + 1"
        using larger_step[OF min lt all] .
      moreover have "nmax \<noteq> NaN" using b dless_NaN by blast
      ultimately show ?thesis using b live dp by (auto simp: sel_inv_def)
    qed
  next
    case dead
    from D show ?thesis
    proof
      assume a: "(\<forall>i<length A2. \<not> dless (A2 ! i) maxj) \<and> nmax = Fin (- 1) \<and> w' = w"
      then show ?thesis using dead rng nan fst dp by (auto simp: sel_inv_def)
    next
      assume b: "1 \<le> w' \<and> w' \<le> int (length A2) \<and> nmax = A2 ! nat (w' - 1) \<and> dless nmax maxj \<and>
        (\<forall>i<length A2. dless (A2 ! i) maxj \<longrightarrow> \<not> dless nmax (A2 ! i)) \<and>
        (\<forall>i<nat (w' - 1). A2 ! i \<noteq> nmax)"
      then have lt: "nat (w' - 1) < length A2" by auto
      have "nmax \<noteq> NaN" using b dless_NaN by blast
      then have "dless (Fin (- 1)) nmax" using nn b lt by auto
      then have False using b dead(1) dless_asym by blast
      then show ?thesis ..
    qed
  qed
qed

lemma displace_loop_inv:
  "\<forall>i<length A2. A2 ! i \<noteq> NaN \<longrightarrow> dless (Fin (- 1)) (A2 ! i) \<Longrightarrow> sel_inv A2 p s \<Longrightarrow>
   sel_inv A2 (p + n) (displace_loop n A2 s)"
proof (induction n arbitrary: p s)
  case 0
  then show ?case by simp
next
  case (Suc n)
  from Suc.IH[OF Suc.prems(1) displace_pass_inv[OF Suc.prems]] show ?case by simp
qed

lemma seed_sel_inv:
  assumes "seed_pass rnd DR DI = (A2, maxj, w)" and "rnd_ok rnd"
    and "\<exists>i<length DR. moduli2 rnd DR DI ! i \<noteq> NaN"
  shows "sel_inv A2 0 (maxj, w)"
proof -
  note C = seed_pass_char[OF assms]
  have len: "length A2 = length DR" using C length_moduli2[of rnd DR DI] by simp
  have "larger A2 maxj = {}" using C len by (auto simp: larger_def in_set_conv_nth)
  then show ?thesis using C len by (auto simp: sel_inv_def)
qed

lemma findEig_sq:
  fixes DR DI :: "dbl list" and num :: int
  assumes "rnd_ok rnd" and "int (length DR) < INT_MAX" and "num < INT_MAX"
    and "\<exists>i<length DR. DR ! i \<noteq> NaN \<and> DI ! i \<noteq> NaN"
  defines "A2 \<equiv> moduli2 rnd DR DI"
  shows "\<exists>r<length DR. findEig rnd num DR DI = Some (int r) \<and> A2 ! r \<noteq> NaN \<and>
           (\<forall>j<r. A2 ! j \<noteq> A2 ! r) \<and>
           card (larger A2 (A2 ! r)) = min (nat num) (card (set A2 - {NaN}) - 1)"
proof -
  obtain B maxj w where sp: "seed_pass rnd DR DI = (B, maxj, w)" by (metis prod_cases3)
  obtain maxj' w' where dl: "displace_loop (nat num) B (maxj, w) = (maxj', w')" by (metis surj_pair)
  have ex: "\<exists>i<length DR. moduli2 rnd DR DI ! i \<noteq> NaN"
    using assms(4) moduli2_NaN_iff[OF assms(1), of _ DR DI] by blast
  have B: "B = A2" using seed_pass_char[OF sp assms(1) ex] A2_def by simp
  have len: "length A2 = length DR" unfolding A2_def by (rule length_moduli2)
  have nn: "\<forall>i<length A2. A2 ! i \<noteq> NaN \<longrightarrow> dless (Fin (- 1)) (A2 ! i)"
    unfolding A2_def using moduli2_above[OF assms(1)] length_moduli2[of rnd DR DI] by simp
  have "sel_inv A2 (0 + nat num) (displace_loop (nat num) A2 (maxj, w))"
    using displace_loop_inv[OF nn] seed_sel_inv[OF sp assms(1) ex] B by blast
  then have I: "sel_inv A2 (nat num) (maxj', w')" using dl B by simp
  define r where "r = nat (w' - 1)"
  have w': "1 \<le> w'" "w' \<le> int (length DR)" using I len by (auto simp: sel_inv_def)
  have res: "findEig rnd num DR DI = Some (int r)"
    using sp dl assms(2,3) w' by (simp add: findEig_def r_def)
  have rlt: "r < length DR" using w' by (auto simp: r_def)
  have nan: "A2 ! r \<noteq> NaN" using I by (auto simp: sel_inv_def r_def)
  have "A2 ! r \<in> set A2" using rlt len by simp
  then have "card (larger A2 (A2 ! r)) \<le> card (set A2 - {NaN}) - 1"
    using card_larger_split[of "A2 ! r" A2] nan by linarith
  then have "card (larger A2 (A2 ! r)) = min (nat num) (card (set A2 - {NaN}) - 1)"
    using I by (auto simp: sel_inv_def r_def)
  moreover have "\<forall>j<r. A2 ! j \<noteq> A2 ! r" using I by (auto simp: sel_inv_def r_def)
  ultimately show ?thesis using res rlt nan by blast
qed

lemma displace_all_NaN:
  "n \<le> length A2 \<Longrightarrow> \<forall>i<length A2. A2 ! i = NaN \<Longrightarrow>
   foldl (displace_step A2 maxj) (nmax, w) [0..<n] = (nmax, w)"
  by (induction n) (simp_all add: displace_step_def)

lemma displace_loop_all_NaN:
  "\<forall>i<length A2. A2 ! i = NaN \<Longrightarrow> snd (displace_loop n A2 (maxj, w)) = w"
  by (induction n arbitrary: maxj) (simp_all add: displace_pass_def displace_all_NaN)

text \<open>
  With a NaN at every position nothing is ever selected: the seeding test \<open>A2(ii) > maxj\<close>
  is false throughout, \<open>w\<close> keeps its initial value \<open>-1\<close> and the function returns \<open>-2\<close>.
\<close>

lemma findEig_all_NaN:
  assumes "rnd_ok rnd" and "int (length DR) < INT_MAX" and "num < INT_MAX"
    and "\<forall>i<length DR. DR ! i = NaN \<or> DI ! i = NaN"
  shows "findEig rnd num DR DI = Some (- 2)"
proof -
  obtain A2 maxj w where sp: "seed_pass rnd DR DI = (A2, maxj, w)" by (metis prod_cases3)
  have all: "\<forall>i<length DR. moduli2 rnd DR DI ! i = NaN"
    using assms(4) moduli2_NaN_iff[OF assms(1), of _ DR DI] by blast
  have w: "w = - 1" using seed_pass_NaN[OF sp assms(1) all] .
  have f: "foldl (seed_step rnd DR DI) (replicate (length DR) (Fin 0), Fin (- 1), - 1) [0..<length DR]
           = (A2, maxj, w)"
    using sp by (simp add: seed_pass_def Let_def)
  note I = seed_inv[OF le_refl assms(1) f]
  have "\<forall>i<length A2. A2 ! i = NaN" using I all by simp
  then have "snd (displace_loop (nat num) A2 (maxj, w)) = w" by (rule displace_loop_all_NaN)
  then obtain m' where "displace_loop (nat num) A2 (maxj, w) = (m', w)"
    by (metis prod.collapse)
  then show ?thesis using sp w assms(2,3) by (simp add: findEig_def)
qed

lemmas findEig_eval = findEig_def INT_MAX_def seed_pass_def seed_step_def displace_pass_def
  displace_step_def sqr_def rnd_sat_def dsign_def

text \<open>
  Claim C4, as amended. Let the rounding keep reals that are not negative so, let \<open>DR\<close>,
  \<open>DI\<close> have equal length \<open>L < INT_MAX\<close>, let \<open>num < INT_MAX\<close> and let some position hold
  no NaN. Then \<open>findEig num DR DI\<close> returns a zero-based index \<open>r < L\<close> whose squared
  modulus, as the function computes it in double arithmetic, is not NaN, and the number of
  distinct computed squared moduli strictly above the one at \<open>r\<close> is \<open>num\<close>, capped at the
  number of distinct computed squared moduli that are not NaN minus one: the pick is the
  \<open>num\<close>-th largest distinct value while one exists and the smallest value afterwards. No
  earlier index has the same computed value, and for \<open>num \<le> 0\<close> no computed value is above
  the one at \<open>r\<close>.
\<close>

theorem findEig_selects:
  fixes DR DI :: "dbl list" and num :: int
  assumes "rnd_ok rnd" and "length DI = length DR" and "int (length DR) < INT_MAX"
    and "num < INT_MAX" and "\<exists>i<length DR. DR ! i \<noteq> NaN \<and> DI ! i \<noteq> NaN"
  defines "ms \<equiv> moduli2 rnd DR DI"
  shows "\<exists>r<length DR. findEig rnd num DR DI = Some (int r) \<and> ms ! r \<noteq> NaN \<and>
           card (larger ms (ms ! r)) = min (nat num) (card (set ms - {NaN}) - 1) \<and>
           (\<forall>j<r. ms ! j \<noteq> ms ! r) \<and>
           (num \<le> 0 \<longrightarrow> (\<forall>i<length DR. \<not> dless (ms ! r) (ms ! i)))"
proof -
  obtain r where r: "r < length DR" "findEig rnd num DR DI = Some (int r)" "ms ! r \<noteq> NaN"
    "\<forall>j<r. ms ! j \<noteq> ms ! r"
    "card (larger ms (ms ! r)) = min (nat num) (card (set ms - {NaN}) - 1)"
    using findEig_sq[OF assms(1,3,4,5)] unfolding ms_def by blast
  have top: "\<forall>i<length DR. \<not> dless (ms ! r) (ms ! i)" if "num \<le> 0"
  proof -
    have "card (larger ms (ms ! r)) = 0" using r(5) that by simp
    moreover have "finite (larger ms (ms ! r))" by (simp add: larger_def)
    ultimately have e: "larger ms (ms ! r) = {}" by simp
    have l: "length ms = length DR" unfolding ms_def by (rule length_moduli2)
    show ?thesis
    proof (intro allI impI)
      fix i assume "i < length DR"
      then have "ms ! i \<in> set ms" using l by simp
      then show "\<not> dless (ms ! r) (ms ! i)" using e by (auto simp: larger_def)
    qed
  qed
  show ?thesis using r top by blast
qed

text \<open>
  The theorem at a spectrum with a NaN and a tie: the computed squared moduli are
  \<open>NaN, 9, 16, 2, 16\<close> and \<open>num = 1\<close> selects the \<open>9\<close> at index \<open>1\<close>.
\<close>

theorem findEig_selects_witness:
  "rnd_ok rnd_sat \<and>
   length [Fin 0, Fin 0, Fin 0, Fin 1, Fin 0] = length [NaN, Fin 3, Fin (- 4), Fin 1, Fin 4] \<and>
   int (length [NaN, Fin 3, Fin (- 4), Fin 1, Fin 4]) < INT_MAX \<and> 1 < INT_MAX \<and>
   [NaN, Fin 3, Fin (- 4), Fin 1, Fin 4] ! 1 \<noteq> NaN \<and> [Fin 0, Fin 0, Fin 0, Fin 1, Fin 0] ! 1 \<noteq> NaN \<and>
   findEig rnd_sat 1 [NaN, Fin 3, Fin (- 4), Fin 1, Fin 4] [Fin 0, Fin 0, Fin 0, Fin 1, Fin 0] = Some 1 \<and>
   moduli2 rnd_sat [NaN, Fin 3, Fin (- 4), Fin 1, Fin 4] [Fin 0, Fin 0, Fin 0, Fin 1, Fin 0]
     = [NaN, Fin 9, Fin 16, Fin 2, Fin 16] \<and>
   card (larger [NaN, Fin 9, Fin 16, Fin 2, Fin 16] (Fin 9)) =
     min (nat 1) (card (set [NaN, Fin 9, Fin 16, Fin 2, Fin 16] - {NaN}) - 1)"
proof -
  let ?DR = "[NaN, Fin 3, Fin (- 4), Fin 1, Fin 4]" and ?DI = "[Fin 0, Fin 0, Fin 0, Fin 1, Fin 0]"
  have ev: "findEig rnd_sat 1 ?DR ?DI = Some 1"
    by (simp add: findEig_eval)
  have ms: "moduli2 rnd_sat ?DR ?DI = [NaN, Fin 9, Fin 16, Fin 2, Fin 16]"
    by (simp add: moduli2_def sqr_def rnd_sat_def dsign_def upt_rec)
  have ex: "\<exists>i<length ?DR. ?DR ! i \<noteq> NaN \<and> ?DI ! i \<noteq> NaN"
    by (rule exI[of _ 1]) simp
  have im: "(1::int) < INT_MAX" "int (length ?DR) < INT_MAX" by (simp_all add: INT_MAX_def)
  obtain r where "findEig rnd_sat 1 ?DR ?DI = Some (int r)"
    and c: "card (larger (moduli2 rnd_sat ?DR ?DI) (moduli2 rnd_sat ?DR ?DI ! r)) =
       min (nat 1) (card (set (moduli2 rnd_sat ?DR ?DI) - {NaN}) - 1)"
    using findEig_selects[OF rnd_sat_ok _ im(2) im(1) ex] by auto
  then have "r = 1" using ev by simp
  then have "card (larger [NaN, Fin 9, Fin 16, Fin 2, Fin 16] (Fin 9)) =
     min (nat 1) (card (set [NaN, Fin 9, Fin 16, Fin 2, Fin 16] - {NaN}) - 1)"
    using c unfolding ms by simp
  then show ?thesis using ev ms im rnd_sat_ok by simp
qed

text \<open>
  Claim C4 as stated fails once \<open>num\<close> reaches the number of distinct moduli: for the
  single eigenvalue \<open>5\<close> and \<open>num = 1\<close> the function returns index \<open>0\<close>, whose squared
  modulus \<open>25\<close> has no value above it, so it is the largest and not the next one down.
\<close>

theorem findEig_nth_largest_counterexample:
  "length [Fin 0] = length [Fin 5] \<and> (0::int) \<le> 1 \<and>
   findEig rnd_sat 1 [Fin 5] [Fin 0] = Some 0 \<and>
   moduli2 rnd_sat [Fin 5] [Fin 0] = [Fin 25] \<and>
   card (larger [Fin 25] ([Fin 25] ! 0)) \<noteq> nat 1"
proof -
  have "larger [Fin 25] (Fin 25) = {}"
    by (auto simp: larger_def)
  then show ?thesis by (simp add: findEig_eval moduli2_def)
qed

text \<open>
  The computed squared moduli need not order as the moduli do: the squares of \<open>2 ^ 512\<close>
  and \<open>2 ^ 513\<close> both overflow to infinity, and \<open>num = 0\<close> selects the first of them,
  not the entry of largest modulus.
\<close>

lemma findEig_overflow_tie:
  "findEig rnd_sat 0 [Fin (2 ^ 512), Fin (2 ^ 513)] [Fin 0, Fin 0] = Some 0 \<and>
   moduli2 rnd_sat [Fin (2 ^ 512), Fin (2 ^ 513)] [Fin 0, Fin 0] = [PosInf, PosInf]"
  by (simp add: findEig_eval moduli2_def upt_rec)

text \<open>With \<open>num = INT_MAX\<close> the counter \<open>j\<close> overflows, whatever the vectors.\<close>

lemma findEig_int_overflow: "findEig rnd 2147483647 DR DI = None"
  by (simp add: findEig_def INT_MAX_def)

text \<open>
  Claim C9, as amended. Let the rounding keep reals that are not negative so, let \<open>DR\<close>,
  \<open>DI\<close> have equal length \<open>L < INT_MAX\<close> and let some position hold no NaN (so
  \<open>L \<ge> 1\<close>). Then for every \<open>num < INT_MAX\<close>, also \<open>num \<ge> L\<close> and negative \<open>num\<close>,
  \<open>findEig\<close> returns an index in \<open>[0, L - 1]\<close>.
\<close>

theorem findEig_in_range:
  assumes "rnd_ok rnd" and "length DI = length DR" and "int (length DR) < INT_MAX"
    and "num < INT_MAX" and "\<exists>i<length DR. DR ! i \<noteq> NaN \<and> DI ! i \<noteq> NaN"
  shows "\<exists>r. findEig rnd num DR DI = Some r \<and> 0 \<le> r \<and> r \<le> int (length DR) - 1"
  using findEig_bounds[OF assms(1,3,4,5)] .

theorem findEig_in_range_witness:
  "rnd_ok rnd_sat \<and> length [Fin 0, Fin 0, Fin 1] = length [Fin 3, NaN, Fin 1] \<and>
   int (length [Fin 3, NaN, Fin 1]) < INT_MAX \<and> 5 < INT_MAX \<and>
   [Fin 3, NaN, Fin 1] ! 0 \<noteq> NaN \<and> [Fin 0, Fin 0, Fin 1] ! 0 \<noteq> NaN \<and>
   (\<exists>r. findEig rnd_sat 5 [Fin 3, NaN, Fin 1] [Fin 0, Fin 0, Fin 1] = Some r \<and> 0 \<le> r \<and>
        r \<le> int (length [Fin 3, NaN, Fin 1]) - 1) \<and>
   findEig rnd_sat 5 [Fin 3, NaN, Fin 1] [Fin 0, Fin 0, Fin 1] = Some 2"
proof -
  let ?DR = "[Fin 3, NaN, Fin 1]" and ?DI = "[Fin 0, Fin 0, Fin 1]"
  have ex: "\<exists>i<length ?DR. ?DR ! i \<noteq> NaN \<and> ?DI ! i \<noteq> NaN"
    by (rule exI[of _ 0]) simp
  have im: "(5::int) < INT_MAX" "int (length ?DR) < INT_MAX" by (simp_all add: INT_MAX_def)
  have ev: "findEig rnd_sat 5 ?DR ?DI = Some 2"
    by (simp add: findEig_eval eval_nat_numeral)
  show ?thesis
    using findEig_in_range[OF rnd_sat_ok _ im(2) im(1) ex] ev im rnd_sat_ok by simp
qed

text \<open>
  Claim C9 as stated fails on a NaN: for the single entry \<open>NaN\<close> the seeding test
  \<open>A2(1) > -1\<close> is false, \<open>w\<close> stays \<open>-1\<close> and the function returns \<open>-2\<close>, outside
  \<open>[0, L - 1] = [0, 0]\<close>.
\<close>

theorem findEig_range_counterexample:
  "length [Fin 0] = length [NaN] \<and> 1 \<le> length [NaN] \<and>
   findEig rnd_sat 0 [NaN] [Fin 0] = Some (- 2) \<and>
   (- 2 :: int) < 0"
  by (simp add: findEig_eval)

section \<open>Properties of the steps of \<open>complexDavidson\<close>\<close>

declare gram_schmidt.simps [simp del]

declare davidson_loop.simps [simp del]

lemma frame_refl: "frame s s"
  by (simp add: frame_def)

lemma frame_trans: "frame s s' \<Longrightarrow> frame s' s'' \<Longrightarrow> frame s s''"
  by (simp add: frame_def)

lemma frame_precondition: "frame s (precondition A lambda ni s)"
  by (simp add: frame_def precondition_def)

lemma frame_randomized: "frame s (randomized ext ni s)"
  by (simp add: frame_def randomized_def)

lemma frame_normalized: "frame s (normalized ni qn s)"
  by (simp add: frame_def normalized_def)

lemma frame_gram_schmidt: "gram_schmidt ext maxsize ni count s = (b, s') \<Longrightarrow> frame s s'"
proof (induction ext maxsize ni count s arbitrary: b s' rule: gram_schmidt.induct)
  case (1 ext maxsize ni count s)
  show ?case
  proof (cases "tnorm (orthogonalize (st_V s) ni (st_V s ! nat ni)) < 1 / 10 ^ 10")
    case small: True
    show ?thesis
    proof (cases "ni \<ge> maxsize \<or> count + 1 > 3")
      case True
      then have "s' = randomized ext ni s"
        using "1.prems" small by (subst (asm) gram_schmidt.simps) (auto split: if_splits)
      then show ?thesis by (simp add: frame_randomized)
    next
      case False
      then have rec: "gram_schmidt ext maxsize ni (count + 1)
             (normalized ni (tnorm (st_V (randomized ext ni s) ! nat ni)) (randomized ext ni s)) = (b, s')"
        using "1.prems" small by (subst (asm) gram_schmidt.simps) (auto split: if_splits)
      have "frame (normalized ni (tnorm (st_V (randomized ext ni s) ! nat ni)) (randomized ext ni s)) s'"
        using "1.IH"[OF small _ _ rec] False by auto
      then show ?thesis
        using frame_trans[OF frame_randomized frame_trans[OF frame_normalized]] by blast
    qed
  next
    case False
    then have "s' = normalized ni (tnorm (orthogonalize (st_V s) ni (st_V s ! nat ni)))
                     (s\<lparr>st_V := (st_V s)[nat ni := orthogonalize (st_V s) ni (st_V s ! nat ni)]\<rparr>)"
      using "1.prems" by (subst (asm) gram_schmidt.simps) auto
    then show ?thesis by (simp add: frame_def normalized_def)
  qed
qed

lemma diagonalize_effect:
  assumes "diagonalize ext h s = Inr (s1, w, ce)"
  shows "st_t s1 = st_t s \<and> st_phi s1 = st_phi s \<and> st_eigs s1 = st_eigs s \<and>
         st_complex_diag s1 = st_complex_diag s \<and> st_last_lambda s1 = st_last_lambda s \<and>
         st_V s1 = st_V s \<and> st_AV s1 = st_AV s \<and> st_iter s1 = st_iter s \<and>
         st_MrefR s1 = st_MrefR s \<and> st_MrefI s1 = st_MrefI s \<and>
         (\<exists>c. st_calls s1 = st_calls s @ [c] \<and> (is_complex_call c \<longleftrightarrow> st_complex_diag s))"
  using assms
  by (auto simp: diagonalize_def is_complex_call_def Let_def split: if_splits prod.splits sum.splits)

lemma project_effect:
  assumes "project ext h initEn ii s = Inr (s1, lambda)"
  shows "st_t s1 = st_t s \<and> st_complex_diag s1 = st_complex_diag s \<and>
         st_last_lambda s1 = st_last_lambda s \<and> st_iter s1 = st_iter s \<and>
         st_AV s1 = st_AV s \<and> length (st_phi s1) = length (st_phi s) \<and>
         (ii = 0 \<longrightarrow> st_MrefI s1 = [[0]]) \<and> (ii \<noteq> 0 \<longrightarrow> st_MrefI s1 = st_MrefI s) \<and>
         (\<forall>j. j \<noteq> st_t s \<longrightarrow> st_phi s1 ! j = st_phi s ! j) \<and>
         (ii = 0 \<longrightarrow> st_phi s1 = st_phi s \<and> st_calls s1 = st_calls s) \<and>
         (ii \<noteq> 0 \<longrightarrow> (\<exists>c. st_calls s1 = st_calls s @ [c] \<and> (is_complex_call c \<longleftrightarrow> st_complex_diag s)))"
proof (cases "ii = 0")
  case True
  then show ?thesis using assms by (auto simp: project_def Let_def)
next
  case False
  obtain s0 w ce where d: "diagonalize ext h s = Inr (s0, w, ce)"
    using assms False by (auto simp: project_def split: sum.splits)
  note E = diagonalize_effect[OF d]
  obtain p q where rp: "ritz_pair (st_complex_diag s) ce w ii s0 = (p, q)" by (metis surj_pair)
  from assms False d rp have
    "st_t s1 = st_t s0 \<and> st_complex_diag s1 = st_complex_diag s0 \<and> st_AV s1 = st_AV s0 \<and>
     st_MrefI s1 = st_MrefI s0 \<and>
     st_last_lambda s1 = st_last_lambda s0 \<and> st_iter s1 = st_iter s0 \<and> st_calls s1 = st_calls s0 \<and>
     (\<exists>x. st_phi s1 = (st_phi s0)[st_t s0 := x])"
    by (auto simp: project_def Let_def)
  then show ?thesis using E False by auto
qed


lemma expand_effect:
  "st_t (expand A h errgoal ni s) = st_t s \<and> st_phi (expand A h errgoal ni s) = st_phi s \<and>
   st_eigs (expand A h errgoal ni s) = st_eigs s \<and> st_calls (expand A h errgoal ni s) = st_calls s \<and>
   st_last_lambda (expand A h errgoal ni s) = st_last_lambda s \<and>
   st_V (expand A h errgoal ni s) = st_V s \<and>
   length (st_AV (expand A h errgoal ni s)) = length (st_AV s) \<and>
   (st_complex_diag s \<longrightarrow> st_complex_diag (expand A h errgoal ni s))"
  by (simp add: expand_def Let_def)















lemma tdim_tscale: "tdim (tscale c p) = tdim p"
  by (simp add: tdim_def tscale_def)

lemma normalize_guesses_Inr:
  "normalize_guesses ps = Inr ps' \<longleftrightarrow> (\<forall>j<length ps. tnorm (ps ! j) \<noteq> 0) \<and> ps' = map scaled ps"
proof (induction ps arbitrary: ps')
  case Nil
  then show ?case by auto
next
  case (Cons p ps)
  show ?case
  proof (cases "tnorm p = 0")
    case True
    then show ?thesis by auto
  next
    case False
    show ?thesis
    proof (cases "normalize_guesses ps")
      case (Inl e)
      then have "\<not> (\<forall>j<length ps. tnorm (ps ! j) \<noteq> 0)" using Cons.IH by auto
      then obtain j where "j < length ps" "tnorm (ps ! j) = 0" by auto
      then have "Suc j < length (p # ps) \<and> tnorm ((p # ps) ! Suc j) = 0" by simp
      then have "\<not> (\<forall>j<length (p # ps). tnorm ((p # ps) ! j) \<noteq> 0)" by blast
      then show ?thesis using Inl False by simp
    next
      case (Inr qs)
      then have I: "(\<forall>j<length ps. tnorm (ps ! j) \<noteq> 0) \<and> qs = map scaled ps" using Cons.IH by simp
      then have "\<forall>j<length (p # ps). tnorm ((p # ps) ! j) \<noteq> 0"
        using False by (auto simp: nth_Cons split: nat.splits)
      then show ?thesis using Inr False I by (auto simp: scaled_def)
    qed
  qed
qed

lemma normalize_guesses_Inl:
  "normalize_guesses ps = Inl e \<longleftrightarrow> e = ZeroNorm \<and> (\<exists>j<length ps. tnorm (ps ! j) = 0)"
proof (induction ps)
  case Nil
  then show ?case by simp
next
  case (Cons p ps)
  show ?case
  proof (cases "tnorm p = 0")
    case True
    then have "0 < length (p # ps) \<and> tnorm ((p # ps) ! 0) = 0" by simp
    then have "\<exists>j<length (p # ps). tnorm ((p # ps) ! j) = 0" by blast
    then show ?thesis using True by auto
  next
    case False
    have "(\<exists>j<length (p # ps). tnorm ((p # ps) ! j) = 0) \<longleftrightarrow> (\<exists>j<length ps. tnorm (ps ! j) = 0)"
      using False by (simp add: Ex_less_Suc2)
    then show ?thesis using False Cons.IH by (auto split: sum.splits)
  qed
qed

lemma check_inputs_Inr:
  "check_inputs A phi0 = Inr phi1 \<longleftrightarrow>
     phi0 \<noteq> [] \<and> (\<forall>j<length phi0. tnorm (phi0 ! j) \<noteq> 0) \<and> tdim (hd phi0) = sizeA A \<and>
     phi1 = map scaled phi0"
proof (cases "phi0 = []")
  case True
  then show ?thesis by (simp add: check_inputs_def)
next
  case False
  then have hd: "tdim (hd (map scaled phi0)) = tdim (hd phi0)"
    by (cases phi0) (simp_all add: scaled_def tdim_tscale)
  show ?thesis
  proof (cases "normalize_guesses phi0")
    case (Inl e)
    then have "\<not> (\<forall>j<length phi0. tnorm (phi0 ! j) \<noteq> 0)"
      using normalize_guesses_Inl[of phi0 e] by auto
    then show ?thesis using Inl False by (simp add: check_inputs_def)
  next
    case (Inr qs)
    then have "(\<forall>j<length phi0. tnorm (phi0 ! j) \<noteq> 0) \<and> qs = map scaled phi0"
      using normalize_guesses_Inr[of phi0 qs] by simp
    then show ?thesis using Inr False hd by (auto simp: check_inputs_def)
  qed
qed

lemma check_inputs_Inl:
  "check_inputs A phi0 = Inl e \<longleftrightarrow>
     (e = NoInitialVectors \<and> phi0 = []) \<or>
     (e = ZeroNorm \<and> phi0 \<noteq> [] \<and> (\<exists>j<length phi0. tnorm (phi0 ! j) = 0)) \<or>
     (e = SizeMismatch \<and> phi0 \<noteq> [] \<and> (\<forall>j<length phi0. tnorm (phi0 ! j) \<noteq> 0) \<and> tdim (hd phi0) \<noteq> sizeA A)"
proof (cases "phi0 = []")
  case True
  then show ?thesis by (auto simp: check_inputs_def)
next
  case False
  then have hd: "tdim (hd (map scaled phi0)) = tdim (hd phi0)"
    by (cases phi0) (simp_all add: scaled_def tdim_tscale)
  show ?thesis
  proof (cases "normalize_guesses phi0")
    case (Inl e')
    then have "e' = ZeroNorm \<and> (\<exists>j<length phi0. tnorm (phi0 ! j) = 0)"
      using normalize_guesses_Inl[of phi0 e'] by simp
    then show ?thesis using Inl False by (auto simp: check_inputs_def)
  next
    case (Inr qs)
    then have "(\<forall>j<length phi0. tnorm (phi0 ! j) \<noteq> 0) \<and> qs = map scaled phi0"
      using normalize_guesses_Inr[of phi0 qs] by simp
    then show ?thesis using Inr False hd by (auto simp: check_inputs_def)
  qed
qed

lemma diagonalize_error: "diagonalize ext h s = Inl e \<Longrightarrow> e = IntOverflow \<and> \<not> h"
  by (auto simp: diagonalize_def findEig_call_def split: prod.splits if_splits sum.splits option.splits)

lemma project_error: "project ext h initEn ii s = Inl e \<Longrightarrow> e = IntOverflow \<and> \<not> h \<and> ii \<noteq> 0"
  using diagonalize_error[of ext h s]
  by (auto simp: project_def Let_def split: prod.splits if_splits sum.splits)

lemma body_error:
  "body ext A opts amax nget initEn ii s = Inl e \<Longrightarrow>
   (e = NotNormalized \<and> 3 \<le> debug_level_opt opts) \<or> (e = IntOverflow \<and> \<not> hermitian_opt opts)"
  using project_error[of ext "hermitian_opt opts" initEn ii s]
  by (auto simp: body_def split: prod.splits if_splits sum.splits)

lemma davidson_loop_error:
  "davidson_loop ext A opts amax nget initEn ii s = Inl e \<Longrightarrow>
   (e = NotNormalized \<and> 3 \<le> debug_level_opt opts) \<or> (e = IntOverflow \<and> \<not> hermitian_opt opts)"
proof (induction ext A opts amax nget initEn ii s rule: davidson_loop.induct)
  case (1 ext A opts amax nget initEn ii s)
  show ?case
  proof (cases "ii \<le> amax")
    case False
    then show ?thesis using "1.prems" by (subst (asm) davidson_loop.simps) simp
  next
    case True
    show ?thesis
    proof (cases "body ext A opts amax nget initEn ii s")
      case (Inl e')
      then have "e' = e" using "1.prems" True by (subst (asm) davidson_loop.simps) simp
      then show ?thesis using body_error Inl by blast
    next
      case (Inr r)
      obtain fin s1 where r: "r = (fin, s1)" by (metis surj_pair)
      have nf: "\<not> fin" using "1.prems" True Inr r by (subst (asm) davidson_loop.simps) auto
      then have "davidson_loop ext A opts amax nget initEn (ii + 1) s1 = Inl e"
        using "1.prems" True Inr r by (subst (asm) davidson_loop.simps) simp
      then show ?thesis using "1.IH"[OF True _ _ nf] Inr r by simp
    qed
  qed
qed

lemma run_input_error:
  "complexDavidson_run ext A phi0 opts = Inl e \<and> e \<in> {NoInitialVectors, ZeroNorm, SizeMismatch} \<longleftrightarrow>
   check_inputs A phi0 = Inl e"
proof
  assume a: "complexDavidson_run ext A phi0 opts = Inl e \<and> e \<in> {NoInitialVectors, ZeroNorm, SizeMismatch}"
  show "check_inputs A phi0 = Inl e"
  proof (cases "check_inputs A phi0")
    case (Inl e')
    then show ?thesis using a by (simp add: complexDavidson_run_def)
  next
    case (Inr phi1)
    then have "e = BadLength \<or> e = NotNormalized \<or> e = IntOverflow"
      using a davidson_loop_error[of ext A opts _ _ _ 0 _ e]
      by (auto simp: complexDavidson_run_def Let_def split: if_splits sum.splits)
    then show ?thesis using a by auto
  qed
next
  assume a: "check_inputs A phi0 = Inl e"
  then have "e \<in> {NoInitialVectors, ZeroNorm, SizeMismatch}"
    using check_inputs_Inl[of A phi0 e] by auto
  then show "complexDavidson_run ext A phi0 opts = Inl e \<and> e \<in> {NoInitialVectors, ZeroNorm, SizeMismatch}"
    using a by (simp add: complexDavidson_run_def)
qed

lemma wrappers_error:
  "complexDavidson ext A phi0 opts = Inl e \<longleftrightarrow> complexDavidson_run ext A phi0 opts = Inl e"
  "davidson_vec ext A phi0 opts = Inl e \<longleftrightarrow> complexDavidson_run ext A phi0 opts = Inl e"
  by (auto simp: complexDavidson_def davidson_vec_def split: sum.splits prod.splits)

lemma maxiter0_run:
  assumes "MaxIter opts = Some 0" and "tnorm phi0 \<noteq> 0" and "tdim phi0 = sizeA A" and "1 \<le> sizeA A"
  defines "V0 \<equiv> scaled phi0"
  shows "\<exists>sf. complexDavidson_run ext A [phi0] opts = Inr sf \<and>
           st_eigs sf = [Some (Complex (Re (BraKet V0 (productA A V0))) 0)] \<and>
           st_phi sf = [V0] \<and> st_iter sf = 0 \<and> st_calls sf = [] \<and>
           st_MrefR sf = [[Re (BraKet V0 (productA A V0))]]"
proof -
  have ci: "check_inputs A [phi0] = Inr [V0]"
    using assms(2,3) by (simp add: check_inputs_Inr V0_def)
  have am: "min (maxiter_opt opts) (sizeA A - 1) = 0"
    using assms(1,4) by (simp add: maxiter_opt_def getOpt_def)
  define initEn where "initEn = Re (BraKet V0 (productA A V0))"
  define s0 where "s0 = init_state A 0 [V0]"
  obtain s1 lambda where p: "project ext (hermitian_opt opts) initEn 0 s0 = Inr (s1, lambda)"
    by (simp add: project_def Let_def)
  have l: "lambda = Complex initEn 0"
    and e: "st_eigs s1 = [Some (Complex initEn 0)]" and ph: "st_phi s1 = [V0]"
    and it: "st_iter s1 = 0" and ca: "st_calls s1 = []" and t1: "st_t s1 = 0"
    and m: "st_MrefR s1 = [[initEn]]"
    using p by (auto simp: project_def Let_def s0_def init_state_def)
  obtain v s2 where c: "check_convergence (errgoal_opt opts) (miniter_opt opts) 0 1 0 lambda s1 = (v, s2)"
    by (metis surj_pair)
  have v: "v = Finish" and s2: "s2 = s1\<lparr>st_last_lambda := lambda\<rparr>"
    using c t1 by (auto simp: check_convergence_def Let_def split: if_splits)
  have b: "body ext A opts 0 1 initEn 0 s0 = Inr (True, s2)"
    using p c v by (simp add: body_def)
  have lp: "davidson_loop ext A opts 0 1 initEn 0 s0 = Inr s2"
    by (subst davidson_loop.simps) (use b in simp)
  have h: "harvest 1 s2 = s2"
    using s2 t1 by (simp add: harvest_def)
  have "complexDavidson_run ext A [phi0] opts = Inr s2"
    using ci am lp h by (simp add: complexDavidson_run_def Let_def initEn_def s0_def)
  then show ?thesis using s2 e ph it ca m by (simp add: initEn_def)
qed

lemma maxiter0_davidson:
  assumes "MaxIter opts = Some 0" and "tnorm phi0 \<noteq> 0" and "tdim phi0 = sizeA A" and "1 \<le> sizeA A"
  shows "davidson ext A phi0 opts =
           Inr (Some (Re (BraKet (scaled phi0) (productA A (scaled phi0)))), scaled phi0)"
proof -
  from maxiter0_run[OF assms, of ext] obtain sf where
    "complexDavidson_run ext A [phi0] opts = Inr sf"
    "st_eigs sf = [Some (Complex (Re (BraKet (scaled phi0) (productA A (scaled phi0)))) 0)]"
    "st_phi sf = [scaled phi0]" by blast
  then show ?thesis
    by (simp add: davidson_def davidson_vec_def complexDavidson_def)
qed





section \<open>Three runs of \<open>complexDavidson\<close>\<close>

lemma tnorm_pair: "tnorm [complex_of_real a, complex_of_real b] = sqrt (a * a + b * b)"
  by (simp add: tnorm_def power2_eq_square)

lemma sqrt_sq: "0 \<le> r \<Longrightarrow> x = r * r \<Longrightarrow> sqrt x = r"
  by (simp add: real_sqrt_mult)

lemma n1: "tnorm [3/5, 4/5] = 1"
  using tnorm_pair[of "3/5" "4/5"] by (simp add: sqrt_sq[of 1])

lemma n2: "tnorm [1, 0] = 1"
  using tnorm_pair[of 1 0] by simp

lemma n3: "tnorm [- (48/125), 36/125] = 12/25"
  using tnorm_pair[of "- (48/125)" "36/125"] by (simp add: sqrt_sq[of "12/25"])

lemma n4: "tnorm [0, 0] = 0"
  using tnorm_pair[of 0 0] by simp

lemma upto_00: "[0..0] = [0]" and upto_01: "[0..1] = [0, 1]" and upto_11: "[1..1] = [1]"
  and upto_10: "[1..0] = []" and upto_02: "[0..2] = [0, 1, 2]" and upto_12: "[1..2] = [1, 2]"
  by (simp_all add: upto.simps)

lemma Complex_real: "Complex a 0 = complex_of_real a" and Complex_imag: "Complex 0 1 = \<i>"
  by (simp_all add: complex_eq_iff)

lemma int_of_size_t_small: "int_of_size_t 0 = 0" "int_of_size_t 1 = 1" "int_of_size_t (Suc 0) = 1"
  by (simp_all add: int_of_size_t_def)

lemmas eval_defs = Complex_real Complex_imag body_def project_def init_state_def tadd_def tscale_def Let_def
      check_convergence_def converged_def errgoal_opt_def miniter_opt_def hermitian_opt_def
      debug_level_opt_def maxiter_opt_def getOpt_def Approx0_def precondition_def isNull_def gram_schmidt.simps
      orthogonalize_def BraKet_def upto_00 upto_01 upto_11 upto_10 upto_02 upto_12 normalized_def randomized_def
      expand_def grow_def set_column_def set_row_def
      Norm_def diagonalize_def ritz_pair_def lincomb_def lincomb_add_def mat_at_def vec_at_def ritz_coef_def
      Column_def Nrows_def eval_nat_numeral int_of_size_t_small

lemma ex1_check: "check_inputs A_diag12 [[3/5, 4/5], [1, 0]] = Inr [[3/5, 4/5], [1, 0]]"
  by (simp add: check_inputs_def n1 n2 tscale_def tdim_def A_diag12_def)

lemma ex1_body0: "body ext_diag12 A_diag12 opts0 1 2 (41/25) 0 ex1_s0 = Inr (False, ex1_s1)"
  by (simp add: eval_defs ex1_s0_def ex1_s1_def A_diag12_def opts0_def n3)

lemma ex1_body1: "body ext_diag12 A_diag12 opts0 1 2 (41/25) 1 ex1_s1 = Inr (True, ex1_s2)"
  apply (simp add: eval_defs ex1_s1_def ex1_s2_def A_diag12_def opts0_def ext_diag12_def n4)
  done

lemma ex1_loop: "davidson_loop ext_diag12 A_diag12 opts0 1 2 (41/25) 0 ex1_s0 = Inr ex1_s2"
proof -
  have "davidson_loop ext_diag12 A_diag12 opts0 1 2 (41/25) 1 ex1_s1 = Inr ex1_s2"
    by (subst davidson_loop.simps) (simp add: ex1_body1)
  then have "davidson_loop ext_diag12 A_diag12 opts0 1 2 (41/25) (0 + 1) ex1_s1 = Inr ex1_s2"
    by simp
  then show ?thesis
    by (subst davidson_loop.simps) (simp add: ex1_body0)
qed

lemma sum_list_nil_sqrt: "Norm [] = 0"
  by (simp add: Norm_def)

lemma ex1_harvest: "harvest 2 ex1_s2 = ex1_final"
  by (simp add: harvest_def harvest_one_def ex1_s2_def ex1_final_def eval_defs)

lemma ex1_run:
  "complexDavidson_run ext_diag12 A_diag12 [[3/5, 4/5], [1, 0]] opts0 = Inr ex1_final"
proof -
  have i: "Re (BraKet [3/5, 4/5] (productA A_diag12 [3/5, 4/5])) = 41/25"
    by (simp add: BraKet_def A_diag12_def)
  have m: "min (maxiter_opt opts0) (sizeA A_diag12 - 1) = 1"
    by (simp add: maxiter_opt_def opts0_def getOpt_def A_diag12_def)
  show ?thesis
    unfolding complexDavidson_run_def ex1_check
    using ex1_loop ex1_harvest by (simp add: Let_def m i ex1_s0_def numeral_2_eq_2)
qed

lemma tnorm_unit3: "tnorm [0, 1, 0] = 1" "tnorm [0, 0, 1] = 1" "tnorm [0, 0, 0] = 0" "tnorm [1, 0, 0] = 1"
  by (simp_all add: tnorm_def)









lemma tnorm_unit2: "tnorm [0, 1] = 1" "tnorm [1, 0] = 1" "tnorm [0, 0] = 0"
  by (simp_all add: tnorm_def)

lemma ex3_body0: "body (ext_stub [0, 1]) A_diag12 opts0 1 2 1 0 ex3_s0 = Inr (False, ex3_s1)"
  by (simp add: eval_defs A_diag12_def opts0_def ext_stub_def tnorm_unit2 ex3_s0_def ex3_s1_def)

lemma ex3_body1: "body (ext_stub [0, 1]) A_diag12 opts0 1 2 1 1 ex3_s1 = Inr (True, ex3_s2)"
  by (simp add: eval_defs A_diag12_def opts0_def ext_stub_def tnorm_unit2 ex3_s1_def ex3_s2_def
      diag_of_def identity_def zeros_def)

lemma ex3_loop: "davidson_loop (ext_stub [0, 1]) A_diag12 opts0 1 2 1 0 ex3_s0 = Inr ex3_s2"
proof -
  have "davidson_loop (ext_stub [0, 1]) A_diag12 opts0 1 2 1 1 ex3_s1 = Inr ex3_s2"
    by (subst davidson_loop.simps) (use ex3_body1 in simp)
  then have "davidson_loop (ext_stub [0, 1]) A_diag12 opts0 1 2 1 (0 + 1) ex3_s1 = Inr ex3_s2"
    by simp
  then show ?thesis
    by (subst davidson_loop.simps) (use ex3_body0 in simp)
qed

lemma ex3_run:
  "complexDavidson_run (ext_stub [0, 1]) A_diag12 [[1, 0], [1, 0, 0]] opts0 = Inr ex3_s2"
proof -
  have c: "check_inputs A_diag12 [[1, 0], [1, 0, 0]] = Inr [[1, 0], [1, 0, 0]]"
    by (simp add: check_inputs_def tnorm_unit2 tnorm_unit3 tscale_def tdim_def A_diag12_def)
  have i: "Re (BraKet [1, 0] (productA A_diag12 [1, 0])) = 1"
    by (simp add: BraKet_def A_diag12_def)
  have m: "min (maxiter_opt opts0) (sizeA A_diag12 - 1) = 1"
    by (simp add: maxiter_opt_def opts0_def getOpt_def A_diag12_def)
  have h: "harvest 2 ex3_s2 = ex3_s2"
    by (simp add: harvest_def ex3_s2_def)
  show ?thesis
    unfolding complexDavidson_run_def c
    using ex3_loop h by (simp add: Let_def m i ex3_s0_def numeral_2_eq_2)
qed

text \<open>
  Claim C5 as stated fails: a second guess of dimension 3 for an operator of size 2
  raises no error. The run returns the eigenvalues \<open>1, 2\<close> and the eigenvectors
  \<open>(1, 0)\<close>, \<open>(0, 1)\<close>.
\<close>

theorem input_checks_counterexample:
  "tdim ([[1, 0], [1, 0, 0]] ! 1) \<noteq> sizeA A_diag12 \<and>
   complexDavidson (ext_stub [0, 1]) A_diag12 [[1, 0], [1, 0, 0]] opts0 =
     Inr ([Some 1, Some 2], [[1, 0], [0, 1]])"
proof -
  have "tdim ([[1, 0], [1, 0, 0]] ! 1) \<noteq> sizeA A_diag12"
    by (simp add: tdim_def A_diag12_def)
  then show ?thesis
    by (simp add: complexDavidson_def ex3_run ex3_s2_def)
qed

lemma input_error_iff:
  "(complexDavidson ext A phi0 opts = Inl NoInitialVectors \<longleftrightarrow> phi0 = []) \<and>
   (complexDavidson ext A phi0 opts = Inl ZeroNorm \<longleftrightarrow>
      phi0 \<noteq> [] \<and> (\<exists>j<length phi0. tnorm (phi0 ! j) = 0)) \<and>
   (complexDavidson ext A phi0 opts = Inl SizeMismatch \<longleftrightarrow>
      phi0 \<noteq> [] \<and> (\<forall>j<length phi0. tnorm (phi0 ! j) \<noteq> 0) \<and> tdim (hd phi0) \<noteq> sizeA A)"
  using run_input_error[of ext A phi0 opts NoInitialVectors]
    run_input_error[of ext A phi0 opts ZeroNorm]
    run_input_error[of ext A phi0 opts SizeMismatch]
    check_inputs_Inl[of A phi0 NoInitialVectors]
    check_inputs_Inl[of A phi0 ZeroNorm]
    check_inputs_Inl[of A phi0 SizeMismatch]
  by (simp add: wrappers_error)

text \<open>
  Claim C5, as amended. \<open>complexDavidson\<close> aborts with "No initial vectors" exactly when
  the list of guesses is empty, with "norm of 0" exactly when the list is not empty and
  some guess has norm zero, and with the size error exactly when the list is not
  empty, no guess has norm zero and the first guess has a dimension different from
  \<open>A.size()\<close>. With a non-empty list of guesses that all have a nonzero norm and the
  dimension \<open>A.size()\<close>, none of the three checks fires. The real wrapper aborts with the
  same errors.
\<close>

theorem input_checks:
  "(complexDavidson ext A phi0 opts = Inl NoInitialVectors \<longleftrightarrow> phi0 = []) \<and>
   (complexDavidson ext A phi0 opts = Inl ZeroNorm \<longleftrightarrow>
      phi0 \<noteq> [] \<and> (\<exists>j<length phi0. tnorm (phi0 ! j) = 0)) \<and>
   (complexDavidson ext A phi0 opts = Inl SizeMismatch \<longleftrightarrow>
      phi0 \<noteq> [] \<and> (\<forall>j<length phi0. tnorm (phi0 ! j) \<noteq> 0) \<and> tdim (hd phi0) \<noteq> sizeA A) \<and>
   (phi0 \<noteq> [] \<and> (\<forall>j<length phi0. tnorm (phi0 ! j) \<noteq> 0 \<and> tdim (phi0 ! j) = sizeA A) \<longrightarrow>
      complexDavidson ext A phi0 opts \<notin> {Inl NoInitialVectors, Inl ZeroNorm, Inl SizeMismatch}) \<and>
   (davidson_vec ext A phi0 opts = Inl e \<longleftrightarrow> complexDavidson ext A phi0 opts = Inl e)"
proof -
  note I = input_error_iff[of ext A phi0 opts]
  have "complexDavidson ext A phi0 opts \<notin> {Inl NoInitialVectors, Inl ZeroNorm, Inl SizeMismatch}"
    if a: "phi0 \<noteq> [] \<and> (\<forall>j<length phi0. tnorm (phi0 ! j) \<noteq> 0 \<and> tdim (phi0 ! j) = sizeA A)"
  proof -
    have "tdim (hd phi0) = sizeA A" using a by (cases phi0) auto
    then show ?thesis using I a by auto
  qed
  moreover have "davidson_vec ext A phi0 opts = Inl e \<longleftrightarrow> complexDavidson ext A phi0 opts = Inl e"
    by (simp add: wrappers_error)
  ultimately show ?thesis using I by blast
qed

lemma all_less_2: "(\<forall>j<length [a, b]. P j) \<longleftrightarrow> P 0 \<and> P 1"
  by (auto simp: less_Suc_eq)

theorem input_checks_witness:
  "[[3/5, 4/5], [1, 0::complex]] \<noteq> [] \<and>
   tnorm ([[3/5, 4/5], [1, 0]] ! 0) \<noteq> 0 \<and> tdim ([[3/5, 4/5], [1, 0]] ! 0) = sizeA A_diag12 \<and>
   tnorm ([[3/5, 4/5], [1, 0]] ! 1) \<noteq> 0 \<and> tdim ([[3/5, 4/5], [1, 0]] ! 1) = sizeA A_diag12 \<and>
   complexDavidson ext_diag12 A_diag12 [[3/5, 4/5], [1, 0]] opts0
     \<notin> {Inl NoInitialVectors, Inl ZeroNorm, Inl SizeMismatch}"
proof -
  have h: "tnorm ([[3/5, 4/5], [1, 0]] ! 0) \<noteq> 0 \<and> tdim ([[3/5, 4/5], [1, 0]] ! 0) = sizeA A_diag12 \<and>
           tnorm ([[3/5, 4/5], [1, 0]] ! 1) \<noteq> 0 \<and> tdim ([[3/5, 4/5], [1, 0]] ! 1) = sizeA A_diag12"
    by (simp add: n1 n2 tdim_def A_diag12_def)
  then have "[[3/5, 4/5], [1, 0::complex]] \<noteq> [] \<and>
   (\<forall>j<length [[3/5, 4/5], [1, 0::complex]].
       tnorm ([[3/5, 4/5], [1, 0]] ! j) \<noteq> 0 \<and> tdim ([[3/5, 4/5], [1, 0]] ! j) = sizeA A_diag12)"
    unfolding all_less_2 by simp
  then have "complexDavidson ext_diag12 A_diag12 [[3/5, 4/5], [1, 0]] opts0
     \<notin> {Inl NoInitialVectors, Inl ZeroNorm, Inl SizeMismatch}"
    using input_checks[of ext_diag12 A_diag12 "[[3/5, 4/5], [1, 0]]" opts0] by blast
  then show ?thesis using h by simp
qed

section \<open>The driver: checks, targeting, the sticky flag, and the remaining eigenpairs\<close>

lemma check_convergence_verdict:
  assumes "check_convergence (errgoal_opt opts) (miniter_opt opts) amax nget ii lambda s1 = (v, s2)"
  defines "brk \<equiv> break_condition opts amax ii (tnorm (st_V s1 ! nat (ii + 1))) lambda (st_last_lambda s1)"
  shows "(v \<noteq> Expand \<longleftrightarrow> brk) \<and>
         (v = NextTarget \<longleftrightarrow> brk \<and> st_t s1 < nget - 1 \<and> ii < amax) \<and>
         (v = NextTarget \<longrightarrow> st_t s2 = st_t s1 + 1 \<and> st_last_lambda s2 = Complex 1000 0) \<and>
         (v \<noteq> NextTarget \<longrightarrow> st_t s2 = st_t s1 \<and> st_last_lambda s2 = lambda)"
  using assms(1) unfolding brk_def break_condition_def check_convergence_def converged_def Approx0_def Let_def
  by (auto split: if_splits)

lemma body_cases:
  assumes p: "project ext (hermitian_opt opts) initEn ii s = Inr (s1, lambda)"
    and c: "check_convergence (errgoal_opt opts) (miniter_opt opts) amax nget ii lambda s1 = (v, s2)"
    and g: "gram_schmidt ext (sizeA A) (ii + 1) 0 (precondition A lambda (ii + 1) s2) = (bail, s4)"
  shows "body ext A opts amax nget initEn ii s =
           (if v = Finish then Inr (True, s2)
            else if bail then Inr (True, s4)
            else if debug_level_opt opts \<ge> 3 \<and> \<bar>tnorm (st_V s4 ! nat (ii + 1)) - 1\<bar> > 1 / 10 ^ 10
            then Inl NotNormalized
            else Inr (False, expand A (hermitian_opt opts) (errgoal_opt opts) (ii + 1) s4))"
  using p c g by (simp add: body_def)

lemma loop_step:
  assumes "ii \<le> amax"
  shows "davidson_loop ext A opts amax nget initEn ii s =
           (case body ext A opts amax nget initEn ii s of
              Inl e \<Rightarrow> Inl e
            | Inr (fin, s') \<Rightarrow>
                if fin then Inr s' else davidson_loop ext A opts amax nget initEn (ii + 1) s')"
  using assms by (subst davidson_loop.simps) simp

text \<open>
  Claim C1. In iteration \<open>ii\<close> of the outer loop, with \<open>actual_maxiter = min(MaxIter,
  A.size() - 1)\<close>, residual norm \<open>qn = \<parallel>V[ii+1]\<parallel>\<close> after the projection, Ritz value \<open>lambda\<close>
  and previous value \<open>last_lambda\<close>: the verdict of step C is not \<open>Expand\<close> exactly when
  the break condition of the specification holds. On a break the target advances by
  one and \<open>last_lambda\<close> becomes \<open>(1000, 0)\<close> exactly when \<open>t < nget - 1\<close> and
  \<open>ii < actual_maxiter\<close>; otherwise the loop returns at once with the target unchanged.
  Without a break the target is unchanged and \<open>last_lambda\<close> is \<open>lambda\<close>. When the loop
  does not return at the break, the rest of the iteration decides what the loop does:
  it returns when Gram-Schmidt gives up, it raises the error of the normalization check
  at \<open>DebugLevel \<ge> 3\<close>, and in every other case it is the loop from \<open>ii + 1\<close> on the
  expanded state, in which the target and \<open>last_lambda\<close> are those left by step C.
\<close>

theorem break_and_targeting:
  fixes ext :: Extern and A :: BigMatrixT and opts :: OptSet
  defines "amax \<equiv> min (maxiter_opt opts) (sizeA A - 1)"
  assumes p: "project ext (hermitian_opt opts) initEn ii s = Inr (s1, lambda)"
    and c: "check_convergence (errgoal_opt opts) (miniter_opt opts) amax nget ii lambda s1 = (v, s2)"
    and g: "gram_schmidt ext (sizeA A) (ii + 1) 0 (precondition A lambda (ii + 1) s2) = (bail, s4)"
    and le: "ii \<le> amax"
  defines "brk \<equiv> break_condition opts amax ii (tnorm (st_V s1 ! nat (ii + 1))) lambda (st_last_lambda s)"
    and "s5 \<equiv> expand A (hermitian_opt opts) (errgoal_opt opts) (ii + 1) s4"
    and "dbg \<equiv> debug_level_opt opts \<ge> 3 \<and> \<bar>tnorm (st_V s4 ! nat (ii + 1)) - 1\<bar> > 1 / 10 ^ 10"
  shows "(v \<noteq> Expand \<longleftrightarrow> brk) \<and>
         (v = NextTarget \<longleftrightarrow> brk \<and> st_t s < nget - 1 \<and> ii < amax) \<and>
         (v = NextTarget \<longrightarrow> st_t s2 = st_t s + 1 \<and> st_last_lambda s2 = Complex 1000 0) \<and>
         (v \<noteq> NextTarget \<longrightarrow> st_t s2 = st_t s \<and> st_last_lambda s2 = lambda) \<and>
         (v = Finish \<longrightarrow> davidson_loop ext A opts amax nget initEn ii s = Inr s2) \<and>
         (v \<noteq> Finish \<and> bail \<longrightarrow> davidson_loop ext A opts amax nget initEn ii s = Inr s4) \<and>
         (v \<noteq> Finish \<and> \<not> bail \<and> dbg \<longrightarrow>
            davidson_loop ext A opts amax nget initEn ii s = Inl NotNormalized) \<and>
         (v \<noteq> Finish \<and> \<not> bail \<and> \<not> dbg \<longrightarrow>
            davidson_loop ext A opts amax nget initEn ii s =
              davidson_loop ext A opts amax nget initEn (ii + 1) s5) \<and>
         st_t s4 = st_t s2 \<and> st_last_lambda s4 = st_last_lambda s2 \<and>
         st_t s5 = st_t s2 \<and> st_last_lambda s5 = st_last_lambda s2"
proof -
  have P: "st_t s1 = st_t s" "st_last_lambda s1 = st_last_lambda s"
    using project_effect[OF p] by simp_all
  note V = check_convergence_verdict[OF c, unfolded P]
  note B = body_cases[OF p c g]
  note L = loop_step[OF le, of ext A opts nget initEn s]
  have F: "frame s2 s4"
    using frame_trans[OF frame_precondition frame_gram_schmidt[OF g]] .
  have X: "st_t s5 = st_t s4" "st_last_lambda s5 = st_last_lambda s4"
    unfolding s5_def using expand_effect[of A "hermitian_opt opts" "errgoal_opt opts" "ii + 1" s4]
    by simp_all
  have fr: "st_t s4 = st_t s2 \<and> st_last_lambda s4 = st_last_lambda s2 \<and>
            st_t s5 = st_t s2 \<and> st_last_lambda s5 = st_last_lambda s2"
    using F X by (simp add: frame_def)
  have l1: "davidson_loop ext A opts amax nget initEn ii s = Inr s2" if "v = Finish"
    unfolding L B using that by simp
  have l2: "davidson_loop ext A opts amax nget initEn ii s = Inr s4" if "v \<noteq> Finish \<and> bail"
    unfolding L B using that by simp
  have l3: "davidson_loop ext A opts amax nget initEn ii s = Inl NotNormalized"
    if "v \<noteq> Finish \<and> \<not> bail \<and> dbg"
    unfolding L B using that by (simp add: dbg_def)
  have l4: "davidson_loop ext A opts amax nget initEn ii s =
              davidson_loop ext A opts amax nget initEn (ii + 1) s5"
    if "v \<noteq> Finish \<and> \<not> bail \<and> \<not> dbg"
    unfolding L B using that by (auto simp: dbg_def s5_def)
  show ?thesis using V fr l1 l2 l3 l4 unfolding brk_def by blast
qed

lemma ex3_project0: "project (ext_stub [0, 1]) (hermitian_opt opts0) 1 0 ex3_s0 = Inr (ex3_p0, 1)"
  by (simp add: eval_defs ex3_s0_def ex3_p0_def A_diag12_def)

lemma ex3_check0:
  "check_convergence (errgoal_opt opts0) (miniter_opt opts0) (min (maxiter_opt opts0) (sizeA A_diag12 - 1)) 2 0 1 ex3_p0
     = (NextTarget, ex3_c0)"
  by (simp add: eval_defs ex3_s0_def ex3_p0_def ex3_c0_def A_diag12_def opts0_def tnorm_unit2)

lemma ex3_gram0:
  "gram_schmidt (ext_stub [0, 1]) (sizeA A_diag12) (0 + 1) 0 (precondition A_diag12 1 (0 + 1) ex3_c0)
     = (False, ex3_g0)"
  by (simp add: eval_defs ex3_s0_def ex3_p0_def ex3_c0_def ex3_g0_def A_diag12_def ext_stub_def tnorm_unit2)

lemma ex3_expand0:
  "expand A_diag12 (hermitian_opt opts0) (errgoal_opt opts0) (0 + 1) ex3_g0 = ex3_s1"
  by (simp add: eval_defs ex3_s0_def ex3_p0_def ex3_c0_def ex3_g0_def ex3_s1_def A_diag12_def opts0_def)

lemma ex3_amax: "min (maxiter_opt opts0) (sizeA A_diag12 - 1) = 1"
  by (simp add: maxiter_opt_def opts0_def getOpt_def A_diag12_def)

text \<open>
  The theorem at the first iteration of the run of \<open>diag(1, 2)\<close> from the eigenvector
  \<open>(1, 0)\<close> with two guesses: the residual is zero, the target advances to \<open>1\<close>, and the
  loop goes on with iteration \<open>1\<close> on the expanded state, where it ends with the second
  eigenpair.
\<close>

theorem break_and_targeting_witness:
  "project (ext_stub [0, 1]) (hermitian_opt opts0) 1 0 ex3_s0 = Inr (ex3_p0, 1) \<and>
   check_convergence (errgoal_opt opts0) (miniter_opt opts0) (min (maxiter_opt opts0) (sizeA A_diag12 - 1)) 2 0 1 ex3_p0
     = (NextTarget, ex3_c0) \<and>
   gram_schmidt (ext_stub [0, 1]) (sizeA A_diag12) (0 + 1) 0 (precondition A_diag12 1 (0 + 1) ex3_c0)
     = (False, ex3_g0) \<and>
   0 \<le> min (maxiter_opt opts0) (sizeA A_diag12 - 1) \<and>
   break_condition opts0 (min (maxiter_opt opts0) (sizeA A_diag12 - 1)) 0 (tnorm (st_V ex3_p0 ! nat (0 + 1))) 1
     (st_last_lambda ex3_s0) \<and>
   st_t ex3_s0 < 2 - 1 \<and> 0 < min (maxiter_opt opts0) (sizeA A_diag12 - 1) \<and>
   st_t ex3_c0 = st_t ex3_s0 + 1 \<and> st_last_lambda ex3_c0 = Complex 1000 0 \<and>
   davidson_loop (ext_stub [0, 1]) A_diag12 opts0 1 2 1 0 ex3_s0 =
     davidson_loop (ext_stub [0, 1]) A_diag12 opts0 1 2 1 (0 + 1) ex3_s1 \<and>
   st_t ex3_s1 = 1 \<and> st_last_lambda ex3_s1 = Complex 1000 0 \<and>
   davidson_loop (ext_stub [0, 1]) A_diag12 opts0 1 2 1 (0 + 1) ex3_s1 = Inr ex3_s2 \<and>
   st_t ex3_s2 = 1 \<and> st_calls ex3_s2 = [CallEigenValues]"
proof -
  have le: "0 \<le> min (maxiter_opt opts0) (sizeA A_diag12 - 1)"
    by (simp add: ex3_amax)
  have nd: "\<not> (debug_level_opt opts0 \<ge> 3 \<and> \<bar>tnorm (st_V ex3_g0 ! nat (0 + 1)) - 1\<bar> > 1 / 10 ^ 10)"
    by (simp add: debug_level_opt_def opts0_def getOpt_def)
  note T = break_and_targeting[OF ex3_project0 ex3_check0 ex3_gram0 le, unfolded ex3_expand0]
  have brk: "break_condition opts0 (min (maxiter_opt opts0) (sizeA A_diag12 - 1)) 0
      (tnorm (st_V ex3_p0 ! nat (0 + 1))) 1 (st_last_lambda ex3_s0) \<and>
      st_t ex3_s0 < 2 - 1 \<and> 0 < min (maxiter_opt opts0) (sizeA A_diag12 - 1)"
    using T by blast
  have tgt: "st_t ex3_c0 = st_t ex3_s0 + 1 \<and> st_last_lambda ex3_c0 = Complex 1000 0"
    using T by blast
  have "davidson_loop (ext_stub [0, 1]) A_diag12 opts0 (min (maxiter_opt opts0) (sizeA A_diag12 - 1)) 2 1 0 ex3_s0 =
     davidson_loop (ext_stub [0, 1]) A_diag12 opts0 (min (maxiter_opt opts0) (sizeA A_diag12 - 1)) 2 1 (0 + 1) ex3_s1"
    using T nd by blast
  then have cont: "davidson_loop (ext_stub [0, 1]) A_diag12 opts0 1 2 1 0 ex3_s0 =
     davidson_loop (ext_stub [0, 1]) A_diag12 opts0 1 2 1 (0 + 1) ex3_s1"
    unfolding ex3_amax .
  have s1: "st_t ex3_s1 = 1 \<and> st_last_lambda ex3_s1 = Complex 1000 0"
    using T by (simp add: ex3_c0_def)
  have fin: "davidson_loop (ext_stub [0, 1]) A_diag12 opts0 1 2 1 (0 + 1) ex3_s1 = Inr ex3_s2"
    using cont ex3_loop by simp
  have s2: "st_t ex3_s2 = 1 \<and> st_calls ex3_s2 = [CallEigenValues]"
    by (simp add: ex3_s2_def)
  show ?thesis
    using ex3_project0 ex3_check0 ex3_gram0 le brk tgt cont s1 fin s2 by blast
qed






text \<open>
  Claim C7. With \<open>MaxIter = 0\<close>, one guess \<open>phi\<close> of nonzero norm and of dimension
  \<open>A.size() \<ge> 1\<close>, \<open>davidson\<close> returns \<open>Re \<langle>V0|A V0\<rangle>\<close> for \<open>V0 = phi/\<parallel>phi\<parallel>\<close> and leaves \<open>V0\<close>
  in \<open>phi\<close>; \<open>actual_maxiter\<close> is 0, no solver is called, the iteration counter stays 0
  and the projected matrix stays \<open>1\<times>1\<close>.
\<close>

theorem maxiter_zero_rayleigh:
  assumes "MaxIter opts = Some 0" and "tnorm phi0 \<noteq> 0" and "tdim phi0 = sizeA A" and "1 \<le> sizeA A"
  defines "V0 \<equiv> tscale (complex_of_real (1 / tnorm phi0)) phi0"
  shows "davidson ext A phi0 opts = Inr (Some (Re (BraKet V0 (productA A V0))), V0) \<and>
         min (maxiter_opt opts) (sizeA A - 1) = 0 \<and>
         (\<exists>sf. complexDavidson_run ext A [phi0] opts = Inr sf \<and> st_iter sf = 0 \<and> st_calls sf = [] \<and>
               st_MrefR sf = [[Re (BraKet V0 (productA A V0))]])"
proof -
  have V: "V0 = scaled phi0" by (simp add: V0_def scaled_def)
  have "min (maxiter_opt opts) (sizeA A - 1) = 0"
    using assms(1,4) by (simp add: maxiter_opt_def getOpt_def)
  then show ?thesis
    unfolding V using maxiter0_davidson[OF assms(1-4), of ext] maxiter0_run[OF assms(1-4), of ext]
    by blast
qed

lemma n5: "tnorm [3, 4] = 5"
  using tnorm_pair[of 3 4] by (simp add: sqrt_sq[of 5])

lemma n6: "tnorm [2, 0] = 2"
  using tnorm_pair[of 2 0] by (simp add: sqrt_sq[of 2])

theorem maxiter_zero_rayleigh_witness:
  "MaxIter opts_maxiter0 = Some 0 \<and> tnorm [3, 4] \<noteq> 0 \<and> tdim [3, 4] = sizeA A_diag12 \<and>
   1 \<le> sizeA A_diag12 \<and>
   davidson ext_diag12 A_diag12 [3, 4] opts_maxiter0 = Inr (Some (41/25), [3/5, 4/5])"
proof -
  have h: "MaxIter opts_maxiter0 = Some 0" "tnorm [3, 4] \<noteq> 0" "tdim [3, 4] = sizeA A_diag12"
    "1 \<le> sizeA A_diag12"
    by (simp_all add: opts_maxiter0_def n5 tdim_def A_diag12_def)
  have v: "tscale (complex_of_real (1 / tnorm [3, 4])) [3, 4] = [3/5, 4/5]"
    by (simp add: n5 tscale_def)
  have r: "Re (BraKet [3/5, 4/5] (productA A_diag12 [3/5, 4/5])) = 41/25"
    by (simp add: BraKet_def A_diag12_def)
  show ?thesis
    using maxiter_zero_rayleigh[OF h, of ext_diag12] h unfolding v r by simp
qed









text \<open>The answer of \<open>ext_diag12\<close> is the eigendecomposition of the projected matrix of the run.\<close>

lemma ex1_solver_exact:
  "EigenValues ext_diag12 (st_MrefR ex1_s1) = ([1, 2], [[3/5, 4/5], [- (4/5), 3/5]]) \<and>
   (41/25) * (3/5) + (12/25) * (- (4/5)) = (1::real) * (3/5) \<and>
   (12/25) * (3/5) + (34/25) * (- (4/5)) = (1::real) * (- (4/5)) \<and>
   (41/25) * (4/5) + (12/25) * (3/5) = (2::real) * (4/5) \<and>
   (12/25) * (4/5) + (34/25) * (3/5) = (2::real) * (3/5)"
  by (simp add: ext_diag12_def)

text \<open>
  Claim C3 on the run of \<open>diag(1, 2)\<close> from the guesses \<open>(3/5, 4/5)\<close>, \<open>(1, 0)\<close> with the
  default options. The loop ends in iteration 1 with \<open>t = 0\<close>. The code after the loop
  sets \<open>eigs[1] = 2\<close> and writes to \<open>phi[1]\<close> the synthesis of column \<open>t = 0\<close>, which is
  \<open>(1, 0)\<close>, the eigenvector of the eigenvalue 1; the synthesis of column \<open>j = 1\<close> is
  \<open>(0, 1)\<close>.
\<close>

theorem harvest_column_failing_input:
  "davidson_loop ext_diag12 A_diag12 opts0 1 2 (41/25) 0 (init_state A_diag12 1 [[3/5, 4/5], [1, 0]])
     = Inr ex1_s2 \<and>
   st_t ex1_s2 = 0 \<and> st_UR ex1_s2 = [[3/5, 4/5], [- (4/5), 3/5]] \<and>
   complexDavidson ext_diag12 A_diag12 [[3/5, 4/5], [1, 0]] opts0 = Inr ([Some 1, Some 2], [[1, 0], [1, 0]]) \<and>
   synth_column ex1_s2 0 = [1, 0] \<and> synth_column ex1_s2 1 = [0, 1]"
proof -
  have "synth_column ex1_s2 0 = [1, 0]" "synth_column ex1_s2 1 = [0, 1]"
    by (simp_all add: synth_column_def ex1_s2_def eval_defs)
  then show ?thesis
    using ex1_loop ex1_run
    by (simp add: complexDavidson_def ex1_final_def ex1_s0_def ex1_s2_def)
qed

section \<open>The power method\<close>

declare pm_inner.simps [simp del]

lemma deflate_in_turn_snoc:
  "deflate_in_turn (found @ [p]) v = deflate_in_turn [p] (deflate_in_turn found v)"
  by (induction found v rule: deflate_in_turn.induct) simp_all

lemma pm_term_pair:
  assumes "j < length found"
  shows "tadd v (pm_term (map fst found @ es) (map snd found @ vs) j v) =
         deflate_in_turn [found ! j] v"
proof -
  obtain l u where lu: "found ! j = (l, u)" by (metis surj_pair)
  have l: "(map fst found @ es) ! j = l" and u: "(map snd found @ vs) ! j = u"
    using assms lu by (simp_all add: nth_append)
  have "tscale (BraKet u v) (tscale (complex_of_real (- l)) u) =
        tscale (- (complex_of_real l * BraKet u v)) u"
    by (simp add: tscale_def)
  then show ?thesis unfolding lu by (simp add: pm_term_def l u)
qed

lemma pm_deflate_prefix:
  "n \<le> length found \<Longrightarrow>
   foldl (\<lambda>v' j. tadd v' (pm_term (map fst found @ es) (map snd found @ vs) j v')) v [0..<n] =
   deflate_in_turn (take n found) v"
proof (induction n)
  case 0
  then show ?case by simp
next
  case (Suc n)
  then have n: "n < length found" by simp
  have t: "take (Suc n) found = take n found @ [found ! n]"
    using n by (simp add: take_Suc_conv_app_nth)
  show ?case
    using Suc.IH n unfolding t deflate_in_turn_snoc[of "take n found"]
    by (simp add: pm_term_pair[OF n])
qed

lemma pm_deflate_found:
  "pm_deflate (map fst found @ es) (map snd found @ vs) (length found) v = deflate_in_turn found v"
  using pm_deflate_prefix[of "length found" found es vs v] by (simp add: pm_deflate_def)

lemma tdivr_tscale: "tdivr w r = tscale (complex_of_real (1 / r)) w"
  by (simp add: tdivr_def tscale_def divide_inverse mult.commute)

lemma pm_step_found:
  "pm_step pm_deflate A (length found)
     (map snd found @ v # rest, map fst found @ prev # es) =
   (map snd found @ snd (power_step A found v) # rest,
    map fst found @ fst (power_step A found v) # es)"
  by (simp add: pm_step_def power_step_def Let_def pm_deflate_found tdivr_tscale nth_append
      list_update_append)

lemma pm_inner_found:
  "1 \<le> ii \<Longrightarrow> ii \<le> 1001 \<Longrightarrow>
   pm_inner pm_deflate A errgoal (length found) ii
     (map snd found @ v # rest, map fst found @ prev # es) =
   (map snd found @ snd (iterate (nat (1001 - ii)) A errgoal found (prev, v)) # rest,
    map fst found @ fst (iterate (nat (1001 - ii)) A errgoal found (prev, v)) # es)"
proof (induction "nat (1001 - ii)" arbitrary: ii prev v)
  case 0
  then have "ii = 1001" by simp
  then show ?case by (subst pm_inner.simps) simp
next
  case (Suc n)
  then have ii: "ii \<le> 1000" and n: "nat (1001 - ii) = Suc n" "n = nat (1001 - (ii + 1))"
    and n': "nat (1000 - ii) = n" by simp_all
  obtain l v' where ps: "power_step A found v = (l, v')" by (metis surj_pair)
  have st: "pm_step pm_deflate A (length found)
     (map snd found @ v # rest, map fst found @ prev # es) =
     (map snd found @ v' # rest, map fst found @ l # es)"
    using pm_step_found[of A found v rest prev es] ps by simp
  show ?case
  proof (cases "\<bar>l - prev\<bar> < errgoal")
    case True
    then show ?thesis
      by (subst pm_inner.simps) (simp add: ii st n(1) ps nth_append)
  next
    case False
    have "pm_inner pm_deflate A errgoal (length found) (ii + 1)
        (map snd found @ v' # rest, map fst found @ l # es) =
      (map snd found @ snd (iterate (nat (1001 - (ii + 1))) A errgoal found (l, v')) # rest,
       map fst found @ fst (iterate (nat (1001 - (ii + 1))) A errgoal found (l, v')) # es)"
      using Suc.hyps(1)[OF n(2)] Suc.prems ii by simp
    then show ?thesis
      using False by (subst pm_inner.simps) (simp add: ii st n(1) n' ps nth_append)
  qed
qed

lemma pm_target_found:
  "pm_target pm_deflate A errgoal
     (map snd found @ v0 # rest, map fst found @ 1000 # es) (length found) =
   (map snd (found @ [solve_target A errgoal found v0]) @ rest,
    map fst (found @ [solve_target A errgoal found v0]) @ es)"
proof -
  have s: "pm_start (length found) (map snd found @ v0 # rest, map fst found @ 1000 # es) =
      (map snd found @ tscale (complex_of_real (1 / tnorm v0)) v0 # rest, map fst found @ 1000 # es)"
    by (simp add: pm_start_def tdivr_tscale nth_append list_update_append)
  show ?thesis
    unfolding pm_target_def s
    using pm_inner_found[of 1 A errgoal found "tscale (complex_of_real (1 / tnorm v0)) v0" rest 1000 es]
    by (simp add: solve_target_def)
qed

lemma power_iteration_found:
  "foldl (pm_target pm_deflate A errgoal)
     (map snd found @ rest, map fst found @ replicate (length rest) 1000)
     [length found..<length found + length rest] =
   (map snd (solve_all A errgoal found rest), map fst (solve_all A errgoal found rest))"
proof (induction rest arbitrary: found)
  case Nil
  then show ?case by simp
next
  case (Cons v0 rest)
  let ?f = "found @ [solve_target A errgoal found v0]"
  have u: "[length found..<length found + length (v0 # rest)] =
      length found # [length ?f..<length ?f + length rest]"
    by (subst upt_rec) simp
  have t: "pm_target pm_deflate A errgoal
      (map snd found @ v0 # rest, map fst found @ replicate (length (v0 # rest)) 1000) (length found) =
      (map snd ?f @ rest, map fst ?f @ replicate (length rest) 1000)"
    using pm_target_found[of A errgoal found v0 rest "replicate (length rest) 1000"] by simp
  show ?case
    unfolding u foldl_Cons t using Cons.IH[of ?f] by simp
qed

text \<open>
  Claim C8, as amended. \<open>powerMethod\<close> computes what the amended claim describes: for
  each target in input order it normalizes the start vector and performs at most 1000
  iterations of \<open>v \<leftarrow> A v\<close>; for \<open>j = 0, ..., t-1\<close> in turn
  \<open>v \<leftarrow> v - \<lambda>\<^sub>j vecs\<^sub>j \<langle>vecs\<^sub>j|v\<rangle>\<close>, each overlap taken with the current \<open>v\<close>; \<open>\<lambda>\<^sub>t \<leftarrow> \<parallel>v\<parallel>\<close>;
  \<open>v \<leftarrow> v/\<lambda>\<^sub>t\<close>; it stops a target after the first iteration with
  \<open>|\<lambda>\<^sub>t - \<lambda>\<^sub>p\<^sub>r\<^sub>e\<^sub>v| < ErrGoal\<close>, where \<open>\<lambda>\<^sub>p\<^sub>r\<^sub>e\<^sub>v\<close> is \<open>1000\<close> before the first iteration; and it
  returns the values \<open>\<lambda>\<^sub>t\<close>, one per input vector, and leaves the vectors \<open>v\<close> in \<open>vecs\<close>.
\<close>

theorem powerMethod_refines:
  "powerMethod A vecs opts = powerMethod_amended A vecs opts"
  using power_iteration_found[of A "getOpt (ErrGoal opts) (1 / 10 ^ 4)" "[]" vecs]
  by (simp add: powerMethod_def power_iteration_def powerMethod_amended_def Let_def)

lemma tnorm_single: "tnorm [z] = cmod z"
  by (simp add: tnorm_def)

lemmas pm_defs = power_iteration_def pm_target_def pm_start_def pm_inner.simps pm_step_def
  pm_deflate_def pm_deflate_spec_def pm_term_def tnorm_single tdivr_def BraKet_def tadd_def tscale_def
  getOpt_def Let_def upt_rec

lemma pm_code_run: "powerMethod A_two [[1], [1], [1]] opts0 = ([[1], [1], [1]], [2, 2, 2])"
  by (simp add: powerMethod_def pm_defs A_two_def opts0_def)

lemma pm_spec_run: "powerMethod_spec A_two [[1], [1], [1]] opts0 = ([[1], [1], [1]], [2, 2, 6])"
  by (simp add: powerMethod_spec_def pm_defs A_two_def opts0_def)

text \<open>
  Claim C8 as stated fails: on the operator \<open>2\<close> in dimension one with three start
  vectors, the source returns \<open>2, 2, 2\<close>, and the iteration with the deflation of the
  claim returns \<open>2, 2, 6\<close>.
\<close>

theorem powerMethod_deflation_counterexample:
  "snd (powerMethod A_two [[1], [1], [1]] opts0) = [2, 2, 2] \<and>
   snd (powerMethod_spec A_two [[1], [1], [1]] opts0) = [2, 2, 6]"
  by (simp add: pm_code_run pm_spec_run)

text \<open>
  The theorem on the operator \<open>2\<close> with three equal start vectors: both sides are the
  vectors \<open>(1)\<close> and the values \<open>2, 2, 2\<close>.
\<close>

theorem powerMethod_refines_witness:
  "powerMethod A_two [[1], [1], [1]] opts0 = powerMethod_amended A_two [[1], [1], [1]] opts0 \<and>
   powerMethod_amended A_two [[1], [1], [1]] opts0 = ([[1], [1], [1]], [2, 2, 2]) \<and>
   length (snd (powerMethod_amended A_two [[1], [1], [1]] opts0)) = length [[1], [1], [1::complex]]"
proof -
  have e: "powerMethod_amended A_two [[1], [1], [1]] opts0 = ([[1], [1], [1]], [2, 2, 2])"
    using powerMethod_refines[of A_two "[[1], [1], [1]]" opts0] pm_code_run by simp
  show ?thesis unfolding e by (simp add: pm_code_run)
qed
section \<open>The residual of the generalized driver\<close>

declare nd_loop.simps [simp del]

lemmas nd_defs = nd_body_def nd_residual_def nd_init_def nd_expand_def sign_fix_step_def Dot_conj_def
  BraKet_def tadd_def tsub_def tscale_def Let_def tnorm_unit2 grow_def set_column_def set_row_def
  upto_12 upto_11 eval_nat_numeral gen_residual_def gen_residual_spec_def gen_term_def mat_at_def vec_at_def

lemma ex4_body1: "nd_body ext_swap A_swap B_id (1 / 10 ^ 4) 2 [1, 0] 1 (nd_init 2) = (False, ex4_s1)"
  by (simp add: nd_defs A_swap_def B_id_def ex4_s1_def cc_def)

lemma upto_22: "[2..2] = [2]"
  by (simp add: upto.simps)

text \<open>The answer of \<open>ext_swap\<close> solves the projected generalized problem of the run.\<close>

lemma ex4_solver_exact:
  "GeneralizedEV ext_swap (ns_Mref ex4_s1) (ns_Nref ex4_s1) = ([- 1, 1], [[cc, cc], [- 1, 1]]) \<and>
   0 * cc + cc * (- 1) = (- 1) * (1 * cc + 0 * (- 1)) \<and>
   cc * cc + 0 * (- 1) = (- 1) * (0 * cc + (cc * cc) * (- 1)) \<and>
   0 * cc + cc * 1 = 1 * (1 * cc + 0 * 1) \<and>
   cc * cc + 0 * 1 = 1 * (0 * cc + (cc * cc) * 1)"
  by (simp add: ext_swap_def)

lemma foldl_assign: "xs \<noteq> [] \<Longrightarrow> foldl (\<lambda>q k. f k) a xs = f (last xs)"
  by (induction xs rule: rev_induct) simp_all

text \<open>In every iteration \<open>ii \<ge> 2\<close> the residual of the source is its last term.\<close>

lemma gen_residual_last_term:
  assumes "2 \<le> ii" and "gen_residual ext Mref Nref AVs BVs ii = (D, U, lambda, q)"
  shows "q = gen_term U lambda AVs BVs ii"
proof -
  have ne: "[2..ii] \<noteq> []" using assms(1) by (simp add: upto.simps)
  have "last [2..ii] = ii" using assms(1) by (simp add: upto_rec2)
  then show ?thesis
    using assms(2) foldl_assign[OF ne]
    by (auto simp: gen_residual_def Let_def split: prod.splits)
qed

text \<open>
  Claim C2 on the run of \<open>A_swap\<close>, \<open>B_id\<close> from \<open>(1, 0)\<close> with the default options.
  After iteration 1 the dense problem has the smallest eigenvalue \<open>-1\<close> with coefficients
  \<open>(cc, -1)\<close>. In iteration 2 the source computes the residual \<open>(-cc, -cc)\<close>, the last
  term alone; the sum over \<open>k = 1, 2\<close> is \<open>(0, 0)\<close>.
\<close>

theorem residual_failing_input:
  "nd_body ext_swap A_swap B_id (1 / 10 ^ 4) 2 [1, 0] 1 (nd_init 2) = (False, ex4_s1) \<and>
   gen_residual ext_swap (ns_Mref ex4_s1) (ns_Nref ex4_s1) (ns_AV ex4_s1) (ns_BV ex4_s1) 2 =
     ([- 1, 1], [[cc, cc], [- 1, 1]], - 1, [- complex_of_real cc, - complex_of_real cc]) \<and>
   gen_residual_spec ext_swap (ns_Mref ex4_s1) (ns_Nref ex4_s1) (ns_AV ex4_s1) (ns_BV ex4_s1) 2 =
     ([- 1, 1], [[cc, cc], [- 1, 1]], - 1, [0, 0]) \<and>
   cc \<noteq> 0"
proof -
  have "cc \<noteq> 0" by (simp add: cc_def)
  moreover have "gen_residual ext_swap (ns_Mref ex4_s1) (ns_Nref ex4_s1) (ns_AV ex4_s1) (ns_BV ex4_s1) 2 =
     ([- 1, 1], [[cc, cc], [- 1, 1]], - 1, [- complex_of_real cc, - complex_of_real cc])"
    by (simp add: nd_defs upto_22 ext_swap_def ex4_s1_def)
  moreover have "gen_residual_spec ext_swap (ns_Mref ex4_s1) (ns_Nref ex4_s1) (ns_AV ex4_s1) (ns_BV ex4_s1) 2 =
     ([- 1, 1], [[cc, cc], [- 1, 1]], - 1, [0, 0])"
    by (simp add: nd_defs upto_22 ext_swap_def ex4_s1_def)
  ultimately show ?thesis using ex4_body1 by simp
qed

end
